theory Spec2Isabelle
  imports Complex_Main "HOL-Library.Multiset"
begin

section \<open>The study scheduler (scheduler.ts): data model\<close>

text \<open>
  Conventions of the embedding.
  \<^item> A JavaScript \<open>number\<close> holding hours, a difficulty or a priority is an exact
    rational (\<open>rat\<close>): rounding of IEEE doubles is not modelled. On the values
    the application stores (integer hours and difficulties, a capacity of 6) double
    arithmetic is exact. The only non-finite value the scheduler can produce from
    finite fields, \<open>diffDays / 0 = Infinity\<close>, is a constructor of \<open>priority\<close>.
  \<^item> A subject id is an \<open>int\<close>.
  \<^item> An instant (\<open>Date.getTime()\<close>) is an \<open>int\<close> of milliseconds since the epoch.
    The field \<open>examDate\<close> of a subject holds \<open>new Date(s.examDate).getTime()\<close>, the
    instant its date string parses to; the start date is \<open>startDate.getTime()\<close>.
    Both are valid dates (an invalid \<open>Date\<close>, whose time is \<open>NaN\<close>, is outside the
    model), and the run stays inside the range of \<open>Date\<close>.
  \<^item> A date string \<open>YYYY-MM-DD\<close> produced by \<open>toISOString().split('T')[0]\<close> is
    represented by its UTC day number (days since 1970-01-01), which determines
    the string and is determined by it.
  \<^item> \<open>setDate(getDate() + k)\<close> works in the host's local time; the host time zone is
    taken to have a fixed UTC offset, so that it adds exactly \<open>k\<close> times 24 hours.
\<close>

record Subject =
  id_subj :: int
  name :: string
  difficulty :: rat
  examDate :: int
  estimatedHours :: rat

datatype item_type = Study | Revision

record ScheduleItem =
  date :: int
  subjectId :: int
  subjectName :: string
  hours :: rat
  type :: item_type

subsection \<open>Dates\<close>

definition msPerDay :: int where
  "msPerDay = 1000 * 60 * 60 * 24"

text \<open>\<open>d.toISOString().split('T')[0]\<close>: the UTC calendar day of an instant.\<close>

definition toISODate :: "int \<Rightarrow> int" where
  "toISODate t = t div msPerDay"

text \<open>\<open>new Date(dateStr).getTime()\<close> for a date-only string: midnight UTC of that day.\<close>

definition parseISODate :: "int \<Rightarrow> int" where
  "parseISODate d = d * msPerDay"

text \<open>\<open>d.setDate(d.getDate() + k)\<close>.\<close>

definition addDays :: "int \<Rightarrow> int \<Rightarrow> int" where
  "addDays t k = t + k * msPerDay"

subsection \<open>Priorities\<close>

datatype priority = Finite rat | PosInfinity

text \<open>JavaScript \<open><\<close> on the priorities that occur.\<close>

fun less_priority :: "priority \<Rightarrow> priority \<Rightarrow> bool" where
  "less_priority (Finite a) (Finite b) = (a < b)"
| "less_priority (Finite a) PosInfinity = True"
| "less_priority PosInfinity b = False"

text \<open>\<open>diffDays / s.difficulty\<close> for a positive \<open>diffDays\<close>.\<close>

definition divide_number :: "int \<Rightarrow> rat \<Rightarrow> priority" where
  "divide_number diffDays d = (if d = 0 then PosInfinity else Finite (of_int diffDays / d))"

section \<open>MinHeap\<close>

text \<open>
  The array \<open>heap\<close> of \<open>{priority, value}\<close> objects is a list of pairs; every method
  takes the array and returns the new one.
\<close>

type_synonym 'a heap = "(priority \<times> 'a) list"

definition swap :: "'a list \<Rightarrow> nat \<Rightarrow> nat \<Rightarrow> 'a list" where
  "swap h i j = h[i := h ! j, j := h ! i]"

function heapifyUp :: "'a heap \<Rightarrow> nat \<Rightarrow> 'a heap" where
  "heapifyUp h current =
     (if current > 0 then
        (if less_priority (fst (h ! current)) (fst (h ! ((current - 1) div 2)))
         then heapifyUp (swap h current ((current - 1) div 2)) ((current - 1) div 2)
         else h)
      else h)"
  by pat_completeness auto
termination
  by (relation "measure (\<lambda>(h, current). current)") auto

declare heapifyUp.simps [simp del]

text \<open>The index \<open>smallest\<close> that one iteration of \<open>heapifyDown\<close> computes.\<close>

definition smallestOf :: "'a heap \<Rightarrow> nat \<Rightarrow> nat" where
  "smallestOf h current =
     (let smallest = current;
          left = 2 * current + 1;
          right = 2 * current + 2;
          smallest = (if left < length h \<and> less_priority (fst (h ! left)) (fst (h ! smallest))
                      then left else smallest);
          smallest = (if right < length h \<and> less_priority (fst (h ! right)) (fst (h ! smallest))
                      then right else smallest)
      in smallest)"

text \<open>\<open>heapifyDown\<close> ends: the index moves down to a child.\<close>

lemma smallestOf_cases:
  "smallestOf h current = current \<or>
   (current < smallestOf h current \<and> smallestOf h current < length h)"
  by (auto simp: smallestOf_def Let_def)

function heapifyDown :: "'a heap \<Rightarrow> nat \<Rightarrow> 'a heap" where
  "heapifyDown h current =
     (if smallestOf h current \<noteq> current
      then heapifyDown (swap h current (smallestOf h current)) (smallestOf h current)
      else h)"
  by pat_completeness auto
termination
proof (relation "measure (\<lambda>(h, current). length h - current)")
  show "wf (measure (\<lambda>(h :: 'a heap, current). length h - current))"
    by simp
next
  fix h :: "'a heap" and current :: nat
  assume "smallestOf h current \<noteq> current"
  then have "current < smallestOf h current \<and> smallestOf h current < length h"
    using smallestOf_cases [of h current] by simp
  then show "((swap h current (smallestOf h current), smallestOf h current), (h, current))
      \<in> measure (\<lambda>(h, current). length h - current)"
    by (simp add: swap_def) linarith
qed

declare heapifyDown.simps [simp del]

definition heap_insert :: "priority \<Rightarrow> 'a \<Rightarrow> 'a heap \<Rightarrow> 'a heap" where
  "heap_insert p v h = heapifyUp (h @ [(p, v)]) (length (h @ [(p, v)]) - 1)"

definition extractMin :: "'a heap \<Rightarrow> 'a option \<times> 'a heap" where
  "extractMin h =
     (if length h = 0 then (None, h)
      else if length h = 1 then (Some (snd (last h)), butlast h)
      else (Some (snd (h ! 0)), heapifyDown ((butlast h)[0 := last h]) 0))"

definition isEmpty :: "'a heap \<Rightarrow> bool" where
  "isEmpty h = (length h = 0)"

section \<open>mergeSortSubjects\<close>

text \<open>
  The index loop of \<open>merge\<close> over \<open>left[i..]\<close> and \<open>right[j..]\<close> is recursion on the two
  remaining suffixes; the final \<open>concat\<close> of the two slices is the two base cases.
\<close>

fun merge :: "Subject list \<Rightarrow> Subject list \<Rightarrow> Subject list" where
  "merge [] right = right"
| "merge left [] = left"
| "merge (l # left) (r # right) =
     (if examDate l < examDate r \<or> (examDate l = examDate r \<and> difficulty l > difficulty r)
      then l # merge left (r # right)
      else r # merge (l # left) right)"

function mergeSortSubjects :: "Subject list \<Rightarrow> Subject list" where
  "mergeSortSubjects subjects =
     (if length subjects \<le> 1 then subjects
      else merge (mergeSortSubjects (take (length subjects div 2) subjects))
                 (mergeSortSubjects (drop (length subjects div 2) subjects)))"
  by pat_completeness auto
termination
  by (relation "measure length") auto

declare mergeSortSubjects.simps [simp del]

section \<open>generateSchedule\<close>

text \<open>
  The parameter \<open>maxDailyHours\<close> is always passed here; its default in the source is 6.
\<close>

definition totalDaysToPlan :: nat where
  "totalDaysToPlan = 30"

text \<open>\<open>remainingHoursMap.get(id) || 0\<close>; a missing key reads as 0.\<close>

definition remainingOf :: "(int \<rightharpoonup> rat) \<Rightarrow> int \<Rightarrow> rat" where
  "remainingOf m k = (case m k of None \<Rightarrow> 0 | Some r \<Rightarrow> r)"

definition initRemaining :: "Subject list \<Rightarrow> (int \<rightharpoonup> rat)" where
  "initRemaining sortedSubjects =
     fold (\<lambda>s m. m(id_subj s \<mapsto> estimatedHours s)) sortedSubjects Map.empty"

text \<open>\<open>Math.max(1, Math.ceil((examDate.getTime() - currentDate.getTime()) / (1000 * 60 * 60 * 24)))\<close>.\<close>

definition diffDaysOf :: "Subject \<Rightarrow> int \<Rightarrow> int" where
  "diffDaysOf s currentDate =
     max 1 \<lceil>(of_int (examDate s - currentDate) :: rat) / of_int msPerDay\<rceil>"

text \<open>The \<open>forEach\<close> that fills the day's priority queue.\<close>

definition enqueue :: "int \<Rightarrow> (int \<rightharpoonup> rat) \<Rightarrow> Subject \<Rightarrow> Subject heap \<Rightarrow> Subject heap" where
  "enqueue currentDate m s pq =
     (if remainingOf m (id_subj s) > 0 then
        (if diffDaysOf s currentDate > 0
         then heap_insert (divide_number (diffDaysOf s currentDate) (difficulty s)) s pq
         else pq)
      else pq)"

definition buildQueue :: "int \<Rightarrow> (int \<rightharpoonup> rat) \<Rightarrow> Subject list \<Rightarrow> Subject heap" where
  "buildQueue currentDate m sortedSubjects = fold (enqueue currentDate m) sortedSubjects []"

text \<open>The \<open>[1, 3, 7].forEach\<close> that pushes the revision sessions of one study chunk.\<close>

definition revisionItems :: "int \<Rightarrow> Subject \<Rightarrow> ScheduleItem list" where
  "revisionItems currentDate subject =
     concat (map (\<lambda>daysLater.
        if parseISODate (toISODate (addDays currentDate daysLater)) < examDate subject
        then [\<lparr>date = toISODate (addDays currentDate daysLater),
               subjectId = id_subj subject,
               subjectName = name subject,
               hours = 1 / 2,
               type = Revision\<rparr>]
        else []) [1, 3, 7])"

text \<open>
  The state of the \<open>while\<close> loop of one day: the queue, the hours allocated today,
  and the schedule and the remaining-hours map of the run.
\<close>

record AllocState =
  pq :: "Subject heap"
  hoursAllocatedToday :: rat
  schedule :: "ScheduleItem list"
  remainingHoursMap :: "int \<rightharpoonup> rat"


text \<open>
  One iteration of the \<open>while\<close> loop for the subject that has been extracted.
  \<open>remainingHoursMap.get(subject.id)!\<close> reads a key that \<open>initRemaining\<close> has set.
\<close>

definition allocate :: "int \<Rightarrow> rat \<Rightarrow> Subject \<Rightarrow> AllocState \<Rightarrow> AllocState" where
  "allocate currentDate maxDailyHours subject st =
     (let remaining = remainingOf (remainingHoursMap st) (id_subj subject);
          chunk = min 2 (min remaining (maxDailyHours - hoursAllocatedToday st))
      in if chunk > 0 then
           st\<lparr>schedule := schedule st
                 @ [\<lparr>date = toISODate currentDate,
                      subjectId = id_subj subject,
                      subjectName = name subject,
                      hours = chunk,
                      type = Study\<rparr>]
                 @ revisionItems currentDate subject,
              remainingHoursMap := (remainingHoursMap st)(id_subj subject \<mapsto> remaining - chunk),
              hoursAllocatedToday := hoursAllocatedToday st + chunk\<rparr>
         else st)"

text \<open>
  The body of the \<open>while\<close> loop. The loop runs on a non-empty queue only, where
  \<open>extractMin\<close> returns a subject; the second case is never reached.
\<close>

definition whileBody :: "int \<Rightarrow> rat \<Rightarrow> AllocState \<Rightarrow> AllocState" where
  "whileBody currentDate maxDailyHours st =
     (case extractMin (pq st) of
        (Some subject, h) \<Rightarrow> allocate currentDate maxDailyHours subject (st\<lparr>pq := h\<rparr>)
      | (None, h) \<Rightarrow> st\<lparr>pq := h\<rparr>)"

text \<open>The loop ends: every iteration extracts one element from the queue.\<close>

lemma length_swap [simp]: "length (swap h i j) = length h"
  by (simp add: swap_def)

lemma length_heapifyDown [simp]: "length (heapifyDown h current) = length h"
  by (induction h current rule: heapifyDown.induct) (subst heapifyDown.simps, simp)

lemma length_heapifyUp [simp]: "length (heapifyUp h current) = length h"
  by (induction h current rule: heapifyUp.induct) (subst heapifyUp.simps, simp)

lemma length_extractMin: "h \<noteq> [] \<Longrightarrow> length (snd (extractMin h)) < length h"
  by (cases h) (auto simp: extractMin_def)

lemma pq_allocate [simp]: "pq (allocate currentDate maxDailyHours subject st) = pq st"
  by (simp add: allocate_def Let_def)

lemma length_pq_whileBody:
  "\<not> isEmpty (pq st) \<Longrightarrow> length (pq (whileBody currentDate maxDailyHours st)) < length (pq st)"
  using length_extractMin [of "pq st"]
  by (auto simp: whileBody_def isEmpty_def split: prod.splits option.splits)

function whileLoop :: "int \<Rightarrow> rat \<Rightarrow> AllocState \<Rightarrow> AllocState" where
  "whileLoop currentDate maxDailyHours st =
     (if \<not> isEmpty (pq st) \<and> hoursAllocatedToday st < maxDailyHours
      then whileLoop currentDate maxDailyHours (whileBody currentDate maxDailyHours st)
      else st)"
  by pat_completeness auto
termination
  by (relation "measure (\<lambda>(currentDate, maxDailyHours, st). length (pq st))")
     (auto simp: length_pq_whileBody)

declare whileLoop.simps [simp del]

text \<open>
  The state that survives a day: the date, the schedule and the remaining hours.
\<close>

record RunState =
  run_currentDate :: int
  run_schedule :: "ScheduleItem list"
  run_remainingHoursMap :: "int \<rightharpoonup> rat"

text \<open>
  The body of the \<open>for\<close> loop over the days, and the loop itself: the counter \<open>d\<close>
  only counts the iterations.
\<close>

definition dayBody :: "Subject list \<Rightarrow> rat \<Rightarrow> RunState \<Rightarrow> RunState" where
  "dayBody sortedSubjects maxDailyHours rs =
     (let st = whileLoop (run_currentDate rs) maxDailyHours
                 \<lparr>pq = buildQueue (run_currentDate rs) (run_remainingHoursMap rs) sortedSubjects,
                  hoursAllocatedToday = 0,
                  schedule = run_schedule rs,
                  remainingHoursMap = run_remainingHoursMap rs\<rparr>
      in \<lparr>run_currentDate = addDays (run_currentDate rs) 1,
          run_schedule = schedule st,
          run_remainingHoursMap = remainingHoursMap st\<rparr>)"

definition runDays :: "nat \<Rightarrow> Subject list \<Rightarrow> rat \<Rightarrow> RunState \<Rightarrow> RunState" where
  "runDays n sortedSubjects maxDailyHours rs =
     fold (\<lambda>d. dayBody sortedSubjects maxDailyHours) [0..<n] rs"

definition generateSchedule :: "Subject list \<Rightarrow> int \<Rightarrow> rat \<Rightarrow> ScheduleItem list" where
  "generateSchedule subjects startDate maxDailyHours =
     run_schedule (runDays totalDaysToPlan (mergeSortSubjects subjects) maxDailyHours
             \<lparr>run_currentDate = startDate,
              run_schedule = [],
              run_remainingHoursMap = initRemaining (mergeSortSubjects subjects)\<rparr>)"

section \<open>Notions used to state the properties\<close>

subsection \<open>One allocation\<close>

text \<open>
  The chunk that \<open>allocate\<close> computes from the hours allocated so far and the
  remaining-hours map, and the study item it pushes.
\<close>

definition chunkOf :: "rat \<Rightarrow> rat \<Rightarrow> (int \<rightharpoonup> rat) \<Rightarrow> Subject \<Rightarrow> rat" where
  "chunkOf maxDailyHours allocated m subject =
     min 2 (min (remainingOf m (id_subj subject)) (maxDailyHours - allocated))"

definition studyItem :: "int \<Rightarrow> Subject \<Rightarrow> rat \<Rightarrow> ScheduleItem" where
  "studyItem currentDate subject chunk =
     \<lparr>date = toISODate currentDate, subjectId = id_subj subject,
      subjectName = name subject, hours = chunk, type = Study\<rparr>"

subsection \<open>The run, day by day\<close>

text \<open>
  The state of the run of \<open>generateSchedule\<close> after \<open>n\<close> days, and the
  remaining-hours map at its end (after \<open>totalDaysToPlan\<close> days).
\<close>

definition stateAt :: "nat \<Rightarrow> Subject list \<Rightarrow> int \<Rightarrow> rat \<Rightarrow> RunState" where
  "stateAt n subjects startDate maxDailyHours =
     runDays n (mergeSortSubjects subjects) maxDailyHours
       \<lparr>run_currentDate = startDate, run_schedule = [],
        run_remainingHoursMap = initRemaining (mergeSortSubjects subjects)\<rparr>"

definition remainingAfter :: "Subject list \<Rightarrow> int \<Rightarrow> rat \<Rightarrow> (int \<rightharpoonup> rat)" where
  "remainingAfter subjects startDate maxDailyHours =
     run_remainingHoursMap (runDays totalDaysToPlan (mergeSortSubjects subjects) maxDailyHours
             \<lparr>run_currentDate = startDate,
              run_schedule = [],
              run_remainingHoursMap = initRemaining (mergeSortSubjects subjects)\<rparr>)"

subsection \<open>The order of the subjects\<close>

text \<open>
  \<open>orderedBefore a b\<close>: \<open>a\<close> may stand before \<open>b\<close> in a list ordered by exam
  date ascending and, on equal dates, by difficulty descending.
\<close>

definition orderedBefore :: "Subject \<Rightarrow> Subject \<Rightarrow> bool" where
  "orderedBefore a b \<longleftrightarrow>
     examDate a < examDate b \<or> (examDate a = examDate b \<and> difficulty b \<le> difficulty a)"

subsection \<open>Hours of a schedule\<close>

text \<open>
  The study hours of a schedule on a day and under a subject id; whole and half units
  of hours.
\<close>

definition studyHoursOn :: "int \<Rightarrow> ScheduleItem list \<Rightarrow> rat" where
  "studyHoursOn d sch = sum_list (map hours (filter (\<lambda>i. type i = Study \<and> date i = d) sch))"

definition studyHoursFor :: "int \<Rightarrow> ScheduleItem list \<Rightarrow> rat" where
  "studyHoursFor k sch = sum_list (map hours (filter (\<lambda>i. type i = Study \<and> subjectId i = k) sch))"

definition isHalfUnit :: "rat \<Rightarrow> bool" where
  "isHalfUnit h \<longleftrightarrow> of_int \<lfloor>2 * h\<rfloor> = 2 * h"


subsection \<open>Revision sessions, as the specification words them\<close>

text \<open>
  \<open>precedesExam day s\<close> is the test \<open>new Date(revDateStr) < new Date(subject.examDate)\<close>:
  midnight UTC of the day is strictly before the exam instant. For an exam date
  without a time of day this is: the day is before the day of the exam.
\<close>

definition precedesExam :: "int \<Rightarrow> Subject \<Rightarrow> bool" where
  "precedesExam day s \<longleftrightarrow> parseISODate day < examDate s"




subsection \<open>The harder of two subjects goes first\<close>

text \<open>
  \<open>afterHarder hid est pre x\<close>: before item \<open>x\<close>, the items \<open>pre\<close> hold a study item
  under id \<open>hid\<close> with the date of \<open>x\<close>, or the study hours under \<open>hid\<close> have
  reached \<open>est\<close>.
\<close>

definition afterHarder :: "int \<Rightarrow> rat \<Rightarrow> ScheduleItem list \<Rightarrow> ScheduleItem \<Rightarrow> bool" where
  "afterHarder hid est pre x \<longleftrightarrow>
     (\<exists>y\<in>set pre. type y = Study \<and> subjectId y = hid \<and> date y = date x)
     \<or> studyHoursFor hid pre = est"

text \<open>
  Every study item under id \<open>eid\<close> in \<open>xs\<close> comes after the harder subject, given
  the items \<open>pre\<close> that precede \<open>xs\<close>.
\<close>

fun harderFirst :: "int \<Rightarrow> int \<Rightarrow> rat \<Rightarrow> ScheduleItem list \<Rightarrow> ScheduleItem list \<Rightarrow> bool" where
  "harderFirst hid eid est pre [] = True"
| "harderFirst hid eid est pre (x # xs) =
     ((type x = Study \<and> subjectId x = eid \<longrightarrow> afterHarder hid est pre x)
      \<and> harderFirst hid eid est (pre @ [x]) xs)"

section \<open>Example inputs\<close>

text \<open>
  The start date of the examples is 2024-11-01T00:00:00Z, the instant 1730419200000,
  day 20028. Exam dates: 2024-10-22 is 1729555200000, 2024-11-11 is 1731283200000,
  2024-11-21 is 1732147200000.
\<close>

text \<open>Two subjects with the same exam date and the same difficulty.\<close>

definition tieFirst :: Subject where
  "tieFirst = \<lparr>id_subj = 1, name = ''Algebra'', difficulty = 3,
      examDate = 1732147200000, estimatedHours = 4\<rparr>"

definition tieSecond :: Subject where
  "tieSecond = \<lparr>id_subj = 2, name = ''Biology'', difficulty = 3,
      examDate = 1732147200000, estimatedHours = 4\<rparr>"


definition dupLong :: Subject where
  "dupLong = \<lparr>id_subj = 1, name = ''Biology'', difficulty = 3,
      examDate = 1732147200000, estimatedHours = 4\<rparr>"


text \<open>A subject with no estimated hours, under the id of \<open>dupLong\<close>.\<close>

definition zeroHours :: Subject where
  "zeroHours = \<lparr>id_subj = 1, name = ''Chemistry'', difficulty = 3,
      examDate = 1731283200000, estimatedHours = 0\<rparr>"

text \<open>A subject with an hour and a quarter of work.\<close>

definition oddHours :: Subject where
  "oddHours = \<lparr>id_subj = 1, name = ''Algebra'', difficulty = 3,
      examDate = 1731283200000, estimatedHours = 5 / 4\<rparr>"

text \<open>Two subjects that differ in difficulty only.\<close>

definition hard5 :: Subject where
  "hard5 = \<lparr>id_subj = 1, name = ''Algebra'', difficulty = 5,
      examDate = 1732147200000, estimatedHours = 4\<rparr>"

definition easy1 :: Subject where
  "easy1 = \<lparr>id_subj = 2, name = ''Biology'', difficulty = 1,
      examDate = 1732147200000, estimatedHours = 4\<rparr>"

text \<open>Two subjects whose exams are over at the start date.\<close>

definition urgentPast :: Subject where
  "urgentPast = \<lparr>id_subj = 1, name = ''Algebra'', difficulty = 5,
      examDate = 1729555200000, estimatedHours = 100\<rparr>"

definition starvedPast :: Subject where
  "starvedPast = \<lparr>id_subj = 2, name = ''Biology'', difficulty = 1,
      examDate = 1729555200000, estimatedHours = 5\<rparr>"

section \<open>Auxiliary facts\<close>

subsection \<open>One allocation\<close>

lemma allocate_eq:
  "allocate cur mx s st =
     (if chunkOf mx (hoursAllocatedToday st) (remainingHoursMap st) s > 0 then
        st\<lparr>schedule := schedule st
               @ studyItem cur s (chunkOf mx (hoursAllocatedToday st) (remainingHoursMap st) s)
               # revisionItems cur s,
           remainingHoursMap := (remainingHoursMap st)(id_subj s \<mapsto>
               remainingOf (remainingHoursMap st) (id_subj s)
                 - chunkOf mx (hoursAllocatedToday st) (remainingHoursMap st) s),
           hoursAllocatedToday := hoursAllocatedToday st
               + chunkOf mx (hoursAllocatedToday st) (remainingHoursMap st) s\<rparr>
      else st)"
  by (simp add: allocate_def chunkOf_def studyItem_def Let_def)

subsection \<open>The heap keeps its elements\<close>

lemma mset_swap_heap:
  "i < length h \<Longrightarrow> j < length h \<Longrightarrow> mset (swap h i j) = mset h"
  unfolding swap_def by (simp add: mset_swap)

lemma mset_heapifyDown: "mset (heapifyDown h current) = mset h"
proof (induction h current rule: heapifyDown.induct)
  case (1 h current)
  show ?case
  proof (cases "smallestOf h current = current")
    case True
    then show ?thesis by (subst heapifyDown.simps) simp
  next
    case False
    then have b: "current < smallestOf h current" "smallestOf h current < length h"
      using smallestOf_cases [of h current] by auto
    then have "mset (swap h current (smallestOf h current)) = mset h"
      by (simp add: mset_swap_heap)
    with 1 False show ?thesis by (subst heapifyDown.simps) simp
  qed
qed

lemma mset_heapifyUp: "current < length h \<Longrightarrow> mset (heapifyUp h current) = mset h"
proof (induction h current rule: heapifyUp.induct)
  case (1 h current)
  show ?case
  proof (cases "current > 0 \<and> less_priority (fst (h ! current)) (fst (h ! ((current - 1) div 2)))")
    case True
    have lt: "(current - 1) div 2 < length h" using "1.prems" by simp
    have "mset (heapifyUp (swap h current ((current - 1) div 2)) ((current - 1) div 2)) = mset (swap h current ((current - 1) div 2))"
      using "1.IH" True lt by simp
    also have "\<dots> = mset h" using "1.prems" lt by (simp add: mset_swap_heap)
    finally show ?thesis using True by (subst heapifyUp.simps) simp
  next
    case False
    then show ?thesis by (subst heapifyUp.simps) auto
  qed
qed

lemma mset_heap_insert: "mset (heap_insert p v h) = add_mset (p, v) (mset h)"
  by (simp add: heap_insert_def mset_heapifyUp)

lemma extractMin_nonempty:
  assumes "h \<noteq> []"
  shows "\<exists>p v. extractMin h = (Some v, snd (extractMin h)) \<and> mset h = add_mset (p, v) (mset (snd (extractMin h)))"
proof (cases h)
  case Nil
  with assms show ?thesis by simp
next
  case (Cons x xs)
  show ?thesis
  proof (cases xs rule: rev_cases)
    case Nil
    with Cons show ?thesis
      by (cases x) (simp add: extractMin_def)
  next
    case (snoc ys y)
    with Cons show ?thesis
      by (cases x) (simp add: extractMin_def mset_heapifyDown butlast_append)
  qed
qed

subsection \<open>Invariants of the loops and of a run\<close>

lemma whileBody_nonempty:
  assumes "\<not> isEmpty (pq st)"
  shows "\<exists>p s h. whileBody cur mx st = allocate cur mx s (st\<lparr>pq := h\<rparr>)
           \<and> mset (pq st) = add_mset (p, s) (mset h)"
proof -
  from assms have "pq st \<noteq> []" by (simp add: isEmpty_def)
  from extractMin_nonempty [OF this] obtain p v where
    e: "extractMin (pq st) = (Some v, snd (extractMin (pq st)))"
    and m: "mset (pq st) = add_mset (p, v) (mset (snd (extractMin (pq st))))" by blast
  have "whileBody cur mx st = allocate cur mx v (st\<lparr>pq := snd (extractMin (pq st))\<rparr>)"
    by (subst whileBody_def, subst e) simp
  with m show ?thesis by blast
qed

lemma whileLoop_invariant:
  fixes st :: AllocState
  assumes "P st"
    and "\<And>st :: AllocState. P st \<Longrightarrow> \<not> isEmpty (pq st) \<Longrightarrow> hoursAllocatedToday st < mx
            \<Longrightarrow> P (whileBody cur mx st)"
  shows "P (whileLoop cur mx st)"
  using assms
proof (induction cur mx st rule: whileLoop.induct)
  case (1 cur mx st)
  show ?case
  proof (cases "\<not> isEmpty (pq st) \<and> hoursAllocatedToday st < mx")
    case True
    then have "P (whileBody cur mx st)" using "1.prems" by blast
    then have "P (whileLoop cur mx (whileBody cur mx st))"
      using "1.IH" True "1.prems"(2) by blast
    then show ?thesis using True by (subst whileLoop.simps) simp
  next
    case False
    then show ?thesis using "1.prems"(1) by (subst whileLoop.simps) auto
  qed
qed

lemma fold_invariant:
  assumes "P s" and "\<And>x s. P s \<Longrightarrow> P (f x s)"
  shows "P (fold f xs s)"
  using assms(1) by (induction xs arbitrary: s) (simp_all add: assms(2))

lemma set_buildQueue_aux:
  "snd ` set (fold (enqueue cur m) subjects h) \<subseteq> snd ` set h \<union> set subjects"
proof (induction subjects arbitrary: h)
  case Nil
  then show ?case by simp
next
  case (Cons s subjects)
  have "set (enqueue cur m s h) \<subseteq> insert (divide_number (diffDaysOf s cur) (difficulty s), s) (set h)"
    using arg_cong [OF mset_heap_insert, of set_mset _ s h]
    by (auto simp: enqueue_def)
  then have "snd ` set (enqueue cur m s h) \<subseteq> insert s (snd ` set h)" by force
  with Cons [of "enqueue cur m s h"] show ?case by auto
qed

lemma set_buildQueue: "snd ` set (buildQueue cur m subjects) \<subseteq> set subjects"
  using set_buildQueue_aux [of cur m subjects "[]"] by (simp add: buildQueue_def)

text \<open>The invariant rule of a whole run\<close>

lemma dayBody_invariant:
  assumes P: "P (run_currentDate rs) 0 (run_schedule rs) (run_remainingHoursMap rs)"
    and alloc: "\<And>cur a sch m s. P cur a sch m \<Longrightarrow> s \<in> set srt \<Longrightarrow> a < mx
        \<Longrightarrow> 0 < chunkOf mx a m s
        \<Longrightarrow> P cur (a + chunkOf mx a m s)
              (sch @ studyItem cur s (chunkOf mx a m s) # revisionItems cur s)
              (m(id_subj s \<mapsto> remainingOf m (id_subj s) - chunkOf mx a m s))"
    and nextday: "\<And>cur a sch m. P cur a sch m \<Longrightarrow> P (addDays cur 1) 0 sch m"
  shows "P (run_currentDate (dayBody srt mx rs)) 0 (run_schedule (dayBody srt mx rs))
           (run_remainingHoursMap (dayBody srt mx rs))"
proof -
  define cur where "cur = run_currentDate rs"
  define I where "I st \<longleftrightarrow> snd ` set (pq st) \<subseteq> set srt
      \<and> P cur (hoursAllocatedToday st) (schedule st) (remainingHoursMap st)" for st :: AllocState
  define st0 where "st0 = \<lparr>pq = buildQueue cur (run_remainingHoursMap rs) srt,
      hoursAllocatedToday = 0, schedule = run_schedule rs,
      remainingHoursMap = run_remainingHoursMap rs\<rparr>"
  have "I st0"
    using P set_buildQueue [of cur "run_remainingHoursMap rs" srt]
    by (simp add: I_def st0_def cur_def)
  moreover have "I (whileBody cur mx st)"
    if "I st" "\<not> isEmpty (pq st)" "hoursAllocatedToday st < mx" for st :: AllocState
  proof -
    from whileBody_nonempty [OF that(2)] obtain p s h where
      w: "whileBody cur mx st = allocate cur mx s (st\<lparr>pq := h\<rparr>)"
      and m: "mset (pq st) = add_mset (p, s) (mset h)" by blast
    from m have "set (pq st) = insert (p, s) (set h)"
      by (metis set_mset_add_mset_insert set_mset_mset)
    with that(1) have s: "s \<in> set srt" and h: "snd ` set h \<subseteq> set srt"
      by (auto simp: I_def)
    show ?thesis
      using that(1,3) s h alloc [of cur "hoursAllocatedToday st" "schedule st" "remainingHoursMap st" s]
      by (simp add: w allocate_eq I_def)
  qed
  ultimately have "I (whileLoop cur mx st0)"
    by (rule whileLoop_invariant)
  then have "P cur (hoursAllocatedToday (whileLoop cur mx st0)) (schedule (whileLoop cur mx st0))
      (remainingHoursMap (whileLoop cur mx st0))"
    by (simp add: I_def)
  then have "P (addDays cur 1) 0 (schedule (whileLoop cur mx st0))
      (remainingHoursMap (whileLoop cur mx st0))"
    by (rule nextday)
  then show ?thesis
    by (simp add: dayBody_def Let_def st0_def cur_def)
qed

lemma run_invariant_final:
  assumes init: "P startDate 0 [] (initRemaining (mergeSortSubjects subjects))"
    and alloc: "\<And>cur a sch m s. P cur a sch m \<Longrightarrow> s \<in> set (mergeSortSubjects subjects) \<Longrightarrow> a < mx
        \<Longrightarrow> 0 < chunkOf mx a m s
        \<Longrightarrow> P cur (a + chunkOf mx a m s)
              (sch @ studyItem cur s (chunkOf mx a m s) # revisionItems cur s)
              (m(id_subj s \<mapsto> remainingOf m (id_subj s) - chunkOf mx a m s))"
    and nextday: "\<And>cur a sch m. P cur a sch m \<Longrightarrow> P (addDays cur 1) 0 sch m"
  shows "\<exists>cur. P cur 0 (generateSchedule subjects startDate mx) (remainingAfter subjects startDate mx)"
proof -
  define R where "R rs \<longleftrightarrow> P (run_currentDate rs) 0 (run_schedule rs) (run_remainingHoursMap rs)" for rs :: RunState
  have "R (fold (\<lambda>d. dayBody (mergeSortSubjects subjects) mx) ds rs)" if "R rs" for ds :: "nat list" and rs :: RunState
    using that
  proof (rule fold_invariant)
    fix d :: nat and rs :: RunState
    assume "R rs"
    then show "R (dayBody (mergeSortSubjects subjects) mx rs)"
      unfolding R_def using alloc nextday by (rule dayBody_invariant)
  qed
  from this [of "\<lparr>run_currentDate = startDate, run_schedule = [],
      run_remainingHoursMap = initRemaining (mergeSortSubjects subjects)\<rparr>" "[0..<totalDaysToPlan]"]
  show ?thesis
    using init unfolding R_def generateSchedule_def remainingAfter_def runDays_def by auto
qed

lemma run_invariant:
  assumes "P startDate 0 [] (initRemaining (mergeSortSubjects subjects))"
    and "\<And>cur a sch m s. P cur a sch m \<Longrightarrow> s \<in> set (mergeSortSubjects subjects) \<Longrightarrow> a < mx
        \<Longrightarrow> 0 < chunkOf mx a m s
        \<Longrightarrow> P cur (a + chunkOf mx a m s)
              (sch @ studyItem cur s (chunkOf mx a m s) # revisionItems cur s)
              (m(id_subj s \<mapsto> remainingOf m (id_subj s) - chunkOf mx a m s))"
    and "\<And>cur a sch m. P cur a sch m \<Longrightarrow> P (addDays cur 1) 0 sch m"
  shows "\<exists>cur m. P cur 0 (generateSchedule subjects startDate mx) m"
proof -
  have "\<exists>cur. P cur 0 (generateSchedule subjects startDate mx) (remainingAfter subjects startDate mx)"
  proof (rule run_invariant_final [where P = P])
    show "P startDate 0 [] (initRemaining (mergeSortSubjects subjects))"
      by (rule assms(1))
  next
    fix cur a sch m s
    assume "P cur a sch m" "s \<in> set (mergeSortSubjects subjects)" "a < mx" "0 < chunkOf mx a m s"
    then show "P cur (a + chunkOf mx a m s)
        (sch @ studyItem cur s (chunkOf mx a m s) # revisionItems cur s)
        (m(id_subj s \<mapsto> remainingOf m (id_subj s) - chunkOf mx a m s))"
      by (rule assms(2))
  next
    fix cur a sch m
    assume "P cur a sch m"
    then show "P (addDays cur 1) 0 sch m" by (rule assms(3))
  qed
  then show ?thesis by blast
qed

subsection \<open>Sorting\<close>

lemma mset_merge: "mset (merge left right) = mset left + mset right"
  by (induction left right rule: merge.induct) auto

lemma set_merge: "set (merge left right) = set left \<union> set right"
  using arg_cong [OF mset_merge, of set_mset left right] by simp

lemma orderedBefore_trans:
  "orderedBefore a b \<Longrightarrow> orderedBefore b c \<Longrightarrow> orderedBefore a c"
  by (auto simp: orderedBefore_def)

lemma sorted_merge:
  "sorted_wrt orderedBefore left \<Longrightarrow> sorted_wrt orderedBefore right
     \<Longrightarrow> sorted_wrt orderedBefore (merge left right)"
proof (induction left right rule: merge.induct)
  case (3 l left r right)
  show ?case
  proof (cases "examDate l < examDate r \<or> (examDate l = examDate r \<and> difficulty l > difficulty r)")
    case True
    then have lr: "orderedBefore l r" by (auto simp: orderedBefore_def)
    have "orderedBefore l y" if "y \<in> set right" for y
      using that "3.prems"(2) lr orderedBefore_trans [of l r y] by auto
    with True lr 3 show ?thesis by (auto simp: set_merge)
  next
    case False
    then have rl: "orderedBefore r l" by (auto simp: orderedBefore_def)
    have "orderedBefore r y" if "y \<in> set left" for y
      using that "3.prems"(1) rl orderedBefore_trans [of r l y] by auto
    with False rl 3 show ?thesis by (auto simp: set_merge)
  qed
qed simp_all

lemma mset_mergeSortSubjects: "mset (mergeSortSubjects subjects) = mset subjects"
proof (induction subjects rule: mergeSortSubjects.induct)
  case (1 subjects)
  show ?case
  proof (cases "length subjects \<le> 1")
    case True
    then show ?thesis by (subst mergeSortSubjects.simps) simp
  next
    case False
    have "mset (take (length subjects div 2) subjects) + mset (drop (length subjects div 2) subjects)
        = mset subjects"
      by (metis append_take_drop_id mset_append)
    with 1 False show ?thesis
      by (subst mergeSortSubjects.simps) (simp add: mset_merge)
  qed
qed

lemma set_mergeSortSubjects [simp]: "set (mergeSortSubjects subjects) = set subjects"
  using arg_cong [OF mset_mergeSortSubjects, of set_mset subjects] by simp

lemma sorted_mergeSortSubjects: "sorted_wrt orderedBefore (mergeSortSubjects subjects)"
proof (induction subjects rule: mergeSortSubjects.induct)
  case (1 subjects)
  show ?case
  proof (cases "length subjects \<le> 1")
    case True
    then have "sorted_wrt orderedBefore subjects"
      by (cases subjects) (auto simp: Suc_le_eq)
    with True show ?thesis by (subst mergeSortSubjects.simps) simp
  next
    case False
    with 1 show ?thesis
      by (subst mergeSortSubjects.simps) (simp add: sorted_merge)
  qed
qed

lemma mergeSortSubjects_Nil [simp]: "mergeSortSubjects [] = []"
  by (subst mergeSortSubjects.simps) simp

lemma mergeSortSubjects_single [simp]: "mergeSortSubjects [a] = [a]"
  by (subst mergeSortSubjects.simps) simp

lemma mergeSortSubjects_pair [simp]: "mergeSortSubjects [a, b] = merge [a] [b]"
  by (subst mergeSortSubjects.simps) simp

subsection \<open>Hours on a day and under an id\<close>

lemma revisionItems_item:
  "i \<in> set (revisionItems cur s) \<Longrightarrow>
     type i = Revision \<and> hours i = 1 / 2 \<and> subjectId i = id_subj s \<and> subjectName i = name s"
  by (auto simp: revisionItems_def split: if_splits)

lemma studyItem_sel [simp]:
  "date (studyItem cur s c) = toISODate cur" "subjectId (studyItem cur s c) = id_subj s"
  "subjectName (studyItem cur s c) = name s" "hours (studyItem cur s c) = c"
  "type (studyItem cur s c) = Study"
  by (simp_all add: studyItem_def)

lemma studyHoursOn_Nil [simp]: "studyHoursOn d [] = 0"
  by (simp add: studyHoursOn_def)

lemma studyHoursOn_append [simp]:
  "studyHoursOn d (xs @ ys) = studyHoursOn d xs + studyHoursOn d ys"
  by (simp add: studyHoursOn_def)

lemma studyHoursOn_none:
  "\<forall>i\<in>set sch. type i = Study \<longrightarrow> date i \<noteq> d \<Longrightarrow> studyHoursOn d sch = 0"
proof -
  assume "\<forall>i\<in>set sch. type i = Study \<longrightarrow> date i \<noteq> d"
  then have "filter (\<lambda>i. type i = Study \<and> date i = d) sch = []"
    by (auto simp: filter_empty_conv)
  then show ?thesis by (simp add: studyHoursOn_def)
qed

lemma studyHoursOn_revisionItems [simp]: "studyHoursOn d (revisionItems cur s) = 0"
  by (rule studyHoursOn_none) (auto dest: revisionItems_item)

lemma studyHoursOn_studyItem [simp]:
  "studyHoursOn d (studyItem cur s c # sch)
     = (if d = toISODate cur then c else 0) + studyHoursOn d sch"
  by (auto simp: studyHoursOn_def studyItem_def)

lemma studyHoursFor_Nil [simp]: "studyHoursFor k [] = 0"
  by (simp add: studyHoursFor_def)

lemma studyHoursFor_append [simp]:
  "studyHoursFor k (xs @ ys) = studyHoursFor k xs + studyHoursFor k ys"
  by (simp add: studyHoursFor_def)

lemma studyHoursFor_none:
  "\<forall>i\<in>set sch. type i = Study \<longrightarrow> subjectId i \<noteq> k \<Longrightarrow> studyHoursFor k sch = 0"
proof -
  assume "\<forall>i\<in>set sch. type i = Study \<longrightarrow> subjectId i \<noteq> k"
  then have "filter (\<lambda>i. type i = Study \<and> subjectId i = k) sch = []"
    by (auto simp: filter_empty_conv)
  then show ?thesis by (simp add: studyHoursFor_def)
qed

lemma studyHoursFor_revisionItems [simp]: "studyHoursFor k (revisionItems cur s) = 0"
  by (rule studyHoursFor_none) (auto dest: revisionItems_item)

lemma studyHoursFor_studyItem [simp]:
  "studyHoursFor k (studyItem cur s c # sch)
     = (if k = id_subj s then c else 0) + studyHoursFor k sch"
  by (auto simp: studyHoursFor_def studyItem_def)

lemma toISODate_addDays [simp]: "toISODate (addDays cur k) = toISODate cur + k"
  by (simp add: toISODate_def addDays_def msPerDay_def)

lemma chunkOf_bounds:
  "chunkOf mx a m s \<le> 2" "chunkOf mx a m s \<le> remainingOf m (id_subj s)"
  "chunkOf mx a m s \<le> mx - a"
  by (simp_all add: chunkOf_def)

subsection \<open>The initial remaining hours\<close>

lemma initRemaining_Nil [simp]: "initRemaining [] = Map.empty"
  by (simp add: initRemaining_def)

lemma initRemaining_snoc [simp]:
  "initRemaining (xs @ [x]) = (initRemaining xs)(id_subj x \<mapsto> estimatedHours x)"
  by (simp add: initRemaining_def)

text \<open>The map is keyed by id: of the subjects with one id, the last one sets the entry.\<close>

lemma initRemaining_eq:
  "initRemaining xs k =
     (if filter (\<lambda>s. id_subj s = k) xs = [] then None
      else Some (estimatedHours (last (filter (\<lambda>s. id_subj s = k) xs))))"
  by (induction xs rule: rev_induct) auto

lemma remainingOf_initRemaining:
  "remainingOf (initRemaining xs) k =
     (if filter (\<lambda>s. id_subj s = k) xs = [] then 0
      else estimatedHours (last (filter (\<lambda>s. id_subj s = k) xs)))"
  by (simp add: remainingOf_def initRemaining_eq)

lemma remainingOf_upd [simp]:
  "remainingOf (m(k \<mapsto> r)) k' = (if k' = k then r else remainingOf m k')"
  by (simp add: remainingOf_def)


lemma distinct_ids_mergeSortSubjects:
  "distinct (map id_subj (mergeSortSubjects subjects)) = distinct (map id_subj subjects)"
proof -
  have "mset (map id_subj (mergeSortSubjects subjects)) = mset (map id_subj subjects)"
    by (simp add: mset_mergeSortSubjects)
  then show ?thesis by (rule mset_eq_imp_distinct_iff)
qed


subsection \<open>The hours of the items\<close>

text \<open>Facts about every item of a schedule.\<close>

lemma items_hours:
  "\<forall>i\<in>set (generateSchedule subjects startDate mx).
     0 < hours i \<and> (type i = Study \<longrightarrow> hours i \<le> 2) \<and> (type i = Revision \<longrightarrow> hours i = 1 / 2)"
proof -
  define P where "P cur a sch m \<longleftrightarrow> (\<forall>i\<in>set sch.
     0 < hours i \<and> (type i = Study \<longrightarrow> hours i \<le> 2) \<and> (type i = Revision \<longrightarrow> hours i = 1 / 2))"
    for cur :: int and a :: rat and sch :: "ScheduleItem list" and m :: "int \<rightharpoonup> rat"
  have "\<exists>cur m. P cur 0 (generateSchedule subjects startDate mx) m"
  proof (rule run_invariant [where P = P])
    show "P startDate 0 [] (initRemaining (mergeSortSubjects subjects))"
      by (simp add: P_def)
  next
    fix cur a sch m s
    assume "P cur a sch m" and "0 < chunkOf mx a m s"
    then show "P cur (a + chunkOf mx a m s)
        (sch @ studyItem cur s (chunkOf mx a m s) # revisionItems cur s)
        (m(id_subj s \<mapsto> remainingOf m (id_subj s) - chunkOf mx a m s))"
      using chunkOf_bounds(1) [of mx a m s]
      by (auto simp: P_def dest: revisionItems_item)
  next
    fix cur a sch m
    assume "P cur a sch m"
    then show "P (addDays cur 1) 0 sch m" by (simp add: P_def)
  qed
  then show ?thesis by (simp add: P_def)
qed

lemma half_units:
  assumes mx: "2 * mx \<in> \<int>" and est: "\<forall>s\<in>set subjects. 2 * estimatedHours s \<in> \<int>"
  shows "\<forall>i\<in>set (generateSchedule subjects startDate mx). 2 * hours i \<in> \<int>"
proof -
  define P where "P cur a sch m \<longleftrightarrow> 2 * a \<in> \<int> \<and> (\<forall>k. 2 * remainingOf m k \<in> \<int>)
      \<and> (\<forall>i\<in>set sch. 2 * hours i \<in> \<int>)"
    for cur :: int and a :: rat and sch :: "ScheduleItem list" and m :: "int \<rightharpoonup> rat"
  have "\<exists>cur m. P cur 0 (generateSchedule subjects startDate mx) m"
  proof (rule run_invariant [where P = P])
    have "2 * remainingOf (initRemaining (mergeSortSubjects subjects)) k \<in> \<int>" for k
    proof (cases "filter (\<lambda>s. id_subj s = k) (mergeSortSubjects subjects) = []")
      case True
      then show ?thesis by (simp add: remainingOf_initRemaining)
    next
      case False
      then have "last (filter (\<lambda>s. id_subj s = k) (mergeSortSubjects subjects))
          \<in> set (filter (\<lambda>s. id_subj s = k) (mergeSortSubjects subjects))"
        by (rule last_in_set)
      then have "last (filter (\<lambda>s. id_subj s = k) (mergeSortSubjects subjects)) \<in> set subjects"
        by simp
      with est False show ?thesis by (simp add: remainingOf_initRemaining)
    qed
    then show "P startDate 0 [] (initRemaining (mergeSortSubjects subjects))"
      by (simp add: P_def)
  next
    fix cur a sch m s
    assume p: "P cur a sch m"
    have c: "2 * chunkOf mx a m s \<in> \<int>"
    proof -
      have "2 * remainingOf m (id_subj s) \<in> \<int>" "2 * (mx - a) \<in> \<int>" "2 * (2::rat) \<in> \<int>"
        using p mx by (auto simp: P_def right_diff_distrib)
      then show ?thesis
        by (auto simp: chunkOf_def min_def)
    qed
    have "2 * (a + chunkOf mx a m s) \<in> \<int>"
      "2 * (remainingOf m (id_subj s) - chunkOf mx a m s) \<in> \<int>"
      using p c by (auto simp: P_def distrib_left right_diff_distrib)
    moreover have "2 * hours i \<in> \<int>" if "i \<in> set (revisionItems cur s)" for i
    proof -
      from revisionItems_item [OF that] have "hours i = 1 / 2" by blast
      then have "2 * hours i = 1" by simp
      then show ?thesis by (simp only: Ints_1)
    qed
    ultimately show "P cur (a + chunkOf mx a m s)
        (sch @ studyItem cur s (chunkOf mx a m s) # revisionItems cur s)
        (m(id_subj s \<mapsto> remainingOf m (id_subj s) - chunkOf mx a m s))"
      using p c by (auto simp: P_def)
  next
    fix cur a sch m
    assume "P cur a sch m"
    then show "P (addDays cur 1) 0 sch m" by (simp add: P_def)
  qed
  then show ?thesis by (simp add: P_def)
qed

lemma isHalfUnit_iff: "isHalfUnit h \<longleftrightarrow> 2 * h \<in> \<int>"
  unfolding isHalfUnit_def by (metis Ints_of_int of_int_floor)

subsection \<open>The account of an id\<close>






text \<open>No item is ever emitted under an id whose map entry starts at zero.\<close>

lemma no_items_for_zero:
  assumes "remainingOf (initRemaining (mergeSortSubjects subjects)) k = 0"
  shows "\<forall>i\<in>set (generateSchedule subjects startDate mx). subjectId i \<noteq> k"
proof -
  define P where "P cur a sch m \<longleftrightarrow> remainingOf m k = 0 \<and> (\<forall>i\<in>set sch. subjectId i \<noteq> k)"
    for cur :: int and a :: rat and sch :: "ScheduleItem list" and m :: "int \<rightharpoonup> rat"
  have "\<exists>cur m. P cur 0 (generateSchedule subjects startDate mx) m"
  proof (rule run_invariant [where P = P])
    show "P startDate 0 [] (initRemaining (mergeSortSubjects subjects))"
      using assms by (simp add: P_def)
  next
    fix cur a sch m s
    assume p: "P cur a sch m" and c: "0 < chunkOf mx a m s"
    have "id_subj s \<noteq> k"
      using p c chunkOf_bounds(2) [of mx a m s] by (auto simp: P_def)
    with p show "P cur (a + chunkOf mx a m s)
        (sch @ studyItem cur s (chunkOf mx a m s) # revisionItems cur s)
        (m(id_subj s \<mapsto> remainingOf m (id_subj s) - chunkOf mx a m s))"
      by (auto simp: P_def dest: revisionItems_item)
  next
    fix cur a sch m
    assume "P cur a sch m"
    then show "P (addDays cur 1) 0 sch m" by (simp add: P_def)
  qed
  then show ?thesis by (simp add: P_def)
qed

subsection \<open>Blocks of a study chunk and its revision sessions\<close>

lemma precedesExam_date_only:
  "examDate s = parseISODate E \<Longrightarrow> precedesExam day s \<longleftrightarrow> day < E"
  by (simp add: precedesExam_def parseISODate_def msPerDay_def)




subsection \<open>Queues of at most two subjects\<close>

lemma heapifyUp_0 [simp]: "heapifyUp h 0 = h"
  by (subst heapifyUp.simps) simp

lemma heap_insert_Nil: "heap_insert p v [] = [(p, v)]"
  by (simp add: heap_insert_def)

lemma heap_insert_single:
  "heap_insert p2 b [(p1, a)] =
     (if less_priority p2 p1 then [(p2, b), (p1, a)] else [(p1, a), (p2, b)])"
  by (simp add: heap_insert_def heapifyUp.simps [of _ "Suc 0"] swap_def)

lemma extractMin_single: "extractMin [(p, a)] = (Some a, [])"
  by (simp add: extractMin_def)

lemma extractMin_pair: "extractMin [(p1, a), (p2, b)] = (Some a, [(p2, b)])"
  by (simp add: extractMin_def heapifyDown.simps [of _ 0] smallestOf_def)

lemma whileLoop_Nil: "pq st = [] \<Longrightarrow> whileLoop cur mx st = st"
  by (subst whileLoop.simps) (simp add: isEmpty_def)

lemma whileLoop_single:
  "pq st = [(p, e)] \<Longrightarrow> whileLoop cur mx st =
     (if hoursAllocatedToday st < mx then allocate cur mx e (st\<lparr>pq := []\<rparr>) else st)"
  by (subst whileLoop.simps)
     (simp add: isEmpty_def whileBody_def extractMin_single whileLoop_Nil)

lemma whileLoop_pair:
  "pq st = [(p1, a), (p2, b)] \<Longrightarrow> whileLoop cur mx st =
     (if hoursAllocatedToday st < mx
      then whileLoop cur mx (allocate cur mx a (st\<lparr>pq := [(p2, b)]\<rparr>)) else st)"
  by (subst whileLoop.simps) (simp add: isEmpty_def whileBody_def extractMin_pair)

lemma schedule_allocate:
  "\<exists>E. schedule (allocate cur mx e st) = schedule st @ E
     \<and> (E = [] \<or> (\<exists>c. E = studyItem cur e c # revisionItems cur e))"
  by (auto simp: allocate_eq)

lemma schedule_whileLoop_single:
  assumes "pq st = [(p, e)]"
  shows "\<exists>E. schedule (whileLoop cur mx st) = schedule st @ E
     \<and> (E = [] \<or> (\<exists>c. E = studyItem cur e c # revisionItems cur e))"
  using schedule_allocate [of cur mx e "st\<lparr>pq := []\<rparr>"]
  by (simp add: whileLoop_single [OF assms])

subsection \<open>The harder of two subjects\<close>

lemma harderFirst_append:
  "harderFirst hid eid est pre (xs @ ys)
     = (harderFirst hid eid est pre xs \<and> harderFirst hid eid est (pre @ xs) ys)"
  by (induction xs arbitrary: pre) auto

lemma harderFirst_other:
  "\<forall>x\<in>set xs. \<not> (type x = Study \<and> subjectId x = eid) \<Longrightarrow> harderFirst hid eid est pre xs"
  by (induction xs arbitrary: pre) auto

lemma harderFirst_nth:
  "harderFirst hid eid est pre xs \<Longrightarrow> i < length xs
     \<Longrightarrow> type (xs ! i) = Study \<Longrightarrow> subjectId (xs ! i) = eid
     \<Longrightarrow> afterHarder hid est (pre @ take i xs) (xs ! i)"
proof (induction xs arbitrary: pre i)
  case Nil
  then show ?case by simp
next
  case (Cons x xs)
  show ?case
  proof (cases i)
    case 0
    with Cons.prems show ?thesis by simp
  next
    case (Suc j)
    with Cons.prems Cons.IH [of "pre @ [x]" j] show ?thesis by simp
  qed
qed

lemma harderFirst_revisions: "harderFirst hid eid est pre (revisionItems cur s)"
  by (rule harderFirst_other) (auto dest: revisionItems_item)

lemma harderFirst_block_other:
  "id_subj s \<noteq> eid \<Longrightarrow> harderFirst hid eid est pre (studyItem cur s c # revisionItems cur s)"
  by (rule harderFirst_other) (auto dest: revisionItems_item)

lemma harderFirst_block_easy:
  "afterHarder hid est pre (studyItem cur s c)
     \<Longrightarrow> harderFirst hid eid est pre (studyItem cur s c # revisionItems cur s)"
  by (simp add: harderFirst_revisions)

lemma diffDaysOf_pos: "0 < diffDaysOf s cur"
  by (simp add: diffDaysOf_def)

lemma dayBody_account:
  assumes "0 \<le> remainingOf (run_remainingHoursMap rs) k"
    and "remainingOf (run_remainingHoursMap rs) k + studyHoursFor k (run_schedule rs) = c"
  shows "0 \<le> remainingOf (run_remainingHoursMap (dayBody srt mx rs)) k
     \<and> remainingOf (run_remainingHoursMap (dayBody srt mx rs)) k
           + studyHoursFor k (run_schedule (dayBody srt mx rs)) = c"
proof -
  define P where "P cur a sch m \<longleftrightarrow> 0 \<le> remainingOf m k \<and> remainingOf m k + studyHoursFor k sch = c"
    for cur :: int and a :: rat and sch :: "ScheduleItem list" and m :: "int \<rightharpoonup> rat"
  have "P (run_currentDate (dayBody srt mx rs)) 0 (run_schedule (dayBody srt mx rs))
           (run_remainingHoursMap (dayBody srt mx rs))"
  proof (rule dayBody_invariant [where P = P])
    show "P (run_currentDate rs) 0 (run_schedule rs) (run_remainingHoursMap rs)"
      using assms by (simp add: P_def)
  next
    fix cur a sch m s
    assume "P cur a sch m"
    then show "P cur (a + chunkOf mx a m s)
        (sch @ studyItem cur s (chunkOf mx a m s) # revisionItems cur s)
        (m(id_subj s \<mapsto> remainingOf m (id_subj s) - chunkOf mx a m s))"
      using chunkOf_bounds(2) [of mx a m s] by (auto simp: P_def)
  next
    fix cur a sch m
    assume "P cur a sch m"
    then show "P (addDays cur 1) 0 sch m" by (simp add: P_def)
  qed
  then show ?thesis by (simp add: P_def)
qed

lemma dayBody_harderFirst:
  assumes keys: "examDate hard = examDate easy" "difficulty hard = 5" "difficulty easy = 1"
    and ids: "id_subj hard \<noteq> id_subj easy"
    and acc: "0 \<le> remainingOf (run_remainingHoursMap rs) (id_subj hard)"
      "remainingOf (run_remainingHoursMap rs) (id_subj hard)
         + studyHoursFor (id_subj hard) (run_schedule rs) = est"
    and hf: "harderFirst (id_subj hard) (id_subj easy) est [] (run_schedule rs)"
  shows "harderFirst (id_subj hard) (id_subj easy) est [] (run_schedule (dayBody [hard, easy] mx rs))"
proof -
  define cur where "cur = run_currentDate rs"
  define m where "m = run_remainingHoursMap rs"
  define sch where "sch = run_schedule rs"
  define ph where "ph = divide_number (diffDaysOf hard cur) (difficulty hard)"
  define pe where "pe = divide_number (diffDaysOf easy cur) (difficulty easy)"
  define rest where "rest = (if remainingOf m (id_subj easy) > 0 then [(pe, easy)] else [])"
  define st0 where "st0 = \<lparr>pq = buildQueue cur m [hard, easy], hoursAllocatedToday = 0,
      schedule = sch, remainingHoursMap = m\<rparr>"
  have dd: "diffDaysOf easy cur = diffDaysOf hard cur"
    by (simp add: diffDaysOf_def keys(1))
  have "\<not> less_priority pe ph"
    using diffDaysOf_pos [of hard cur] by (simp add: pe_def ph_def dd keys divide_number_def)
  then have q: "buildQueue cur m [hard, easy]
      = (if remainingOf m (id_subj hard) > 0 then (ph, hard) # rest else rest)"
    using diffDaysOf_pos [of hard cur] diffDaysOf_pos [of easy cur]
    by (simp add: buildQueue_def enqueue_def heap_insert_Nil heap_insert_single rest_def
        ph_def pe_def)
  have goal: "harderFirst (id_subj hard) (id_subj easy) est [] (schedule (whileLoop cur mx st0))"
  proof (cases "remainingOf m (id_subj hard) > 0")
    case False
    with acc have full: "studyHoursFor (id_subj hard) sch = est"
      by (simp add: m_def sch_def)
    have "\<exists>E. schedule (whileLoop cur mx st0) = sch @ E
        \<and> (E = [] \<or> (\<exists>c. E = studyItem cur easy c # revisionItems cur easy))"
    proof (cases "remainingOf m (id_subj easy) > 0")
      case True
      with False q have "pq st0 = [(pe, easy)]" by (simp add: st0_def rest_def)
      from schedule_whileLoop_single [OF this, of cur mx] show ?thesis by (simp add: st0_def)
    next
      case False
      with \<open>\<not> remainingOf m (id_subj hard) > 0\<close> q have "pq st0 = []" by (simp add: st0_def rest_def)
      then show ?thesis by (simp add: whileLoop_Nil st0_def)
    qed
    then obtain E where E: "schedule (whileLoop cur mx st0) = sch @ E"
      "E = [] \<or> (\<exists>c. E = studyItem cur easy c # revisionItems cur easy)" by blast
    have "harderFirst (id_subj hard) (id_subj easy) est sch E"
      using E(2) full by (auto intro!: harderFirst_block_easy simp: afterHarder_def)
    with hf E(1) show ?thesis by (simp add: harderFirst_append sch_def)
  next
    case True
    with q have pq0: "pq st0 = (ph, hard) # rest" by (simp add: st0_def)
    show ?thesis
    proof (cases "0 < mx")
      case False
      then have "whileLoop cur mx st0 = st0"
        by (subst whileLoop.simps) (simp add: st0_def)
      with hf show ?thesis by (simp add: st0_def sch_def)
    next
      case pos: True
      define st1 where "st1 = allocate cur mx hard (st0\<lparr>pq := rest\<rparr>)"
      have c1: "0 < chunkOf mx 0 m hard"
        using True pos by (simp add: chunkOf_def)
      then have sch1: "schedule st1 = sch @ studyItem cur hard (chunkOf mx 0 m hard) # revisionItems cur hard"
        by (simp add: st1_def allocate_eq st0_def)
      have pq1: "pq st1 = rest" by (simp add: st1_def)
      have w: "whileLoop cur mx st0 = whileLoop cur mx st1"
      proof (cases "remainingOf m (id_subj easy) > 0")
        case True
        then have "pq st0 = [(ph, hard), (pe, easy)]" using pq0 by (simp add: rest_def)
        from whileLoop_pair [OF this, of cur mx] pos True show ?thesis
          by (simp add: st1_def rest_def st0_def)
      next
        case False
        then have p: "pq st0 = [(ph, hard)]" using pq0 by (simp add: rest_def)
        have "pq st1 = []" using pq1 False by (simp add: rest_def)
        then have "whileLoop cur mx st1 = st1" by (rule whileLoop_Nil)
        with whileLoop_single [OF p, of cur mx] pos False show ?thesis
          by (simp add: st1_def rest_def st0_def)
      qed
      have "\<exists>E. schedule (whileLoop cur mx st1) = schedule st1 @ E
          \<and> (E = [] \<or> (\<exists>c. E = studyItem cur easy c # revisionItems cur easy))"
      proof (cases "remainingOf m (id_subj easy) > 0")
        case True
        then have "pq st1 = [(pe, easy)]" using pq1 by (simp add: rest_def)
        then show ?thesis by (rule schedule_whileLoop_single)
      next
        case False
        then have "pq st1 = []" using pq1 by (simp add: rest_def)
        then show ?thesis by (simp add: whileLoop_Nil)
      qed
      then obtain E where E: "schedule (whileLoop cur mx st1) = schedule st1 @ E"
        "E = [] \<or> (\<exists>c. E = studyItem cur easy c # revisionItems cur easy)" by blast
      have h1: "harderFirst (id_subj hard) (id_subj easy) est sch
          (studyItem cur hard (chunkOf mx 0 m hard) # revisionItems cur hard)"
        using ids by (rule harderFirst_block_other)
      have "afterHarder (id_subj hard) est (schedule st1) (studyItem cur easy c)" for c
        by (auto simp: afterHarder_def sch1)
      then have h2: "harderFirst (id_subj hard) (id_subj easy) est (schedule st1) E"
        using E(2) by (auto intro!: harderFirst_block_easy)
      have "schedule (whileLoop cur mx st0) = sch @ (studyItem cur hard (chunkOf mx 0 m hard) # revisionItems cur hard) @ E"
        using w E(1) sch1 by simp
      moreover have "harderFirst (id_subj hard) (id_subj easy) est []
          (sch @ (studyItem cur hard (chunkOf mx 0 m hard) # revisionItems cur hard) @ E)"
        using hf h1 h2 unfolding harderFirst_append sch1 by (simp add: sch_def)
      ultimately show ?thesis by simp
    qed
  qed
  then show ?thesis
    by (simp add: dayBody_def Let_def st0_def cur_def m_def sch_def)
qed

lemma mergeSortSubjects_harder_first:
  assumes "examDate hard = examDate easy" "difficulty hard = 5" "difficulty easy = 1"
    and "subjects = [hard, easy] \<or> subjects = [easy, hard]"
  shows "mergeSortSubjects subjects = [hard, easy]"
  using assms by auto

lemma schedule_harderFirst:
  assumes keys: "examDate hard = examDate easy" "difficulty hard = 5" "difficulty easy = 1"
    and ids: "id_subj hard \<noteq> id_subj easy"
    and est: "0 \<le> estimatedHours hard"
    and subjects: "subjects = [hard, easy] \<or> subjects = [easy, hard]"
  shows "harderFirst (id_subj hard) (id_subj easy) (estimatedHours hard) []
           (generateSchedule subjects startDate mx)"
proof -
  define R where "R rs \<longleftrightarrow>
      0 \<le> remainingOf (run_remainingHoursMap rs) (id_subj hard)
      \<and> remainingOf (run_remainingHoursMap rs) (id_subj hard)
           + studyHoursFor (id_subj hard) (run_schedule rs) = estimatedHours hard
      \<and> harderFirst (id_subj hard) (id_subj easy) (estimatedHours hard) [] (run_schedule rs)"
    for rs :: RunState
  have srt: "mergeSortSubjects subjects = [hard, easy]"
    using keys subjects by (rule mergeSortSubjects_harder_first)
  have step: "R (dayBody [hard, easy] mx rs)" if "R rs" for rs
    using that dayBody_account [of rs "id_subj hard" "estimatedHours hard" "[hard, easy]" mx]
      dayBody_harderFirst [OF keys ids, of rs "estimatedHours hard" mx]
    by (simp add: R_def)
  have "R (fold (\<lambda>d. dayBody [hard, easy] mx) ds rs)" if "R rs" for ds :: "nat list" and rs
    using that by (rule fold_invariant) (rule step)
  moreover have "R \<lparr>run_currentDate = startDate, run_schedule = [],
      run_remainingHoursMap = initRemaining [hard, easy]\<rparr>"
    using ids est by (simp add: R_def initRemaining_def remainingOf_def)
  ultimately show ?thesis
    by (simp add: generateSchedule_def runDays_def srt R_def)
qed

subsection \<open>The days of a run\<close>

lemma generateSchedule_stateAt:
  "generateSchedule subjects startDate mx = run_schedule (stateAt totalDaysToPlan subjects startDate mx)"
  by (simp add: generateSchedule_def stateAt_def)

lemma runDays_0 [simp]: "runDays 0 srt mx rs = rs"
  by (simp add: runDays_def)

lemma runDays_Suc: "runDays (Suc n) srt mx rs = dayBody srt mx (runDays n srt mx rs)"
  by (simp add: runDays_def)

lemma runDays_add: "runDays (n + e) srt mx rs = runDays e srt mx (runDays n srt mx rs)"
  by (induction e) (simp_all add: runDays_Suc)

lemma runDays_invariant:
  assumes "P (run_currentDate rs) 0 (run_schedule rs) (run_remainingHoursMap rs)"
    and alloc: "\<And>cur a sch m s. P cur a sch m \<Longrightarrow> s \<in> set srt \<Longrightarrow> a < mx
        \<Longrightarrow> 0 < chunkOf mx a m s
        \<Longrightarrow> P cur (a + chunkOf mx a m s)
              (sch @ studyItem cur s (chunkOf mx a m s) # revisionItems cur s)
              (m(id_subj s \<mapsto> remainingOf m (id_subj s) - chunkOf mx a m s))"
    and nextday: "\<And>cur a sch m. P cur a sch m \<Longrightarrow> P (addDays cur 1) 0 sch m"
  shows "P (run_currentDate (runDays n srt mx rs)) 0 (run_schedule (runDays n srt mx rs))
           (run_remainingHoursMap (runDays n srt mx rs))"
proof (induction n)
  case 0
  show ?case using assms(1) by simp
next
  case (Suc n)
  then show ?case
    unfolding runDays_Suc using alloc nextday by (rule dayBody_invariant)
qed

lemma run_currentDate_dayBody [simp]:
  "run_currentDate (dayBody srt mx rs) = addDays (run_currentDate rs) 1"
  by (simp add: dayBody_def Let_def)

lemma run_currentDate_runDays:
  "toISODate (run_currentDate (runDays n srt mx rs)) = toISODate (run_currentDate rs) + int n"
  by (induction n) (simp_all add: runDays_Suc)

text \<open>At the start of a day every study item of the schedule bears an earlier date.\<close>

lemma study_dates_before_today:
  assumes "\<forall>i\<in>set (run_schedule rs). type i = Study \<longrightarrow> date i < toISODate (run_currentDate rs)"
  shows "\<forall>i\<in>set (run_schedule (runDays n srt mx rs)).
           type i = Study \<longrightarrow> date i < toISODate (run_currentDate (runDays n srt mx rs))"
proof -
  define P where "P cur a sch m \<longleftrightarrow> 0 \<le> a
      \<and> (\<forall>i\<in>set sch. type i = Study \<longrightarrow> date i \<le> toISODate cur)
      \<and> (a = 0 \<longrightarrow> (\<forall>i\<in>set sch. type i = Study \<longrightarrow> date i < toISODate cur))"
    for cur :: int and a :: rat and sch :: "ScheduleItem list" and m :: "int \<rightharpoonup> rat"
  have "P (run_currentDate (runDays n srt mx rs)) 0 (run_schedule (runDays n srt mx rs))
           (run_remainingHoursMap (runDays n srt mx rs))"
  proof (rule runDays_invariant [where P = P])
    show "P (run_currentDate rs) 0 (run_schedule rs) (run_remainingHoursMap rs)"
      using assms by (auto simp: P_def intro: less_imp_le)
  next
    fix cur a sch m s
    assume "P cur a sch m" and "0 < chunkOf mx a m s"
    then show "P cur (a + chunkOf mx a m s)
        (sch @ studyItem cur s (chunkOf mx a m s) # revisionItems cur s)
        (m(id_subj s \<mapsto> remainingOf m (id_subj s) - chunkOf mx a m s))"
      by (auto simp: P_def dest: revisionItems_item)
  next
    fix cur a sch m
    assume "P cur a sch m"
    then show "P (addDays cur 1) 0 sch m" by (auto simp: P_def)
  qed
  then show ?thesis by (simp add: P_def)
qed

text \<open>Later days only append items, and their study items bear later dates.\<close>

lemma schedule_extends:
  "\<exists>ext. run_schedule (runDays n srt mx rs) = run_schedule rs @ ext
     \<and> (\<forall>i\<in>set ext. type i = Study \<longrightarrow> toISODate (run_currentDate rs) \<le> date i)"
proof -
  define P where "P cur a sch m \<longleftrightarrow> toISODate (run_currentDate rs) \<le> toISODate cur
      \<and> (\<exists>ext. sch = run_schedule rs @ ext
            \<and> (\<forall>i\<in>set ext. type i = Study \<longrightarrow> toISODate (run_currentDate rs) \<le> date i))"
    for cur :: int and a :: rat and sch :: "ScheduleItem list" and m :: "int \<rightharpoonup> rat"
  have "P (run_currentDate (runDays n srt mx rs)) 0 (run_schedule (runDays n srt mx rs))
           (run_remainingHoursMap (runDays n srt mx rs))"
  proof (rule runDays_invariant [where P = P])
    show "P (run_currentDate rs) 0 (run_schedule rs) (run_remainingHoursMap rs)"
      by (simp add: P_def)
  next
    fix cur a sch m s
    assume p: "P cur a sch m"
    then obtain ext where ext: "sch = run_schedule rs @ ext"
      "\<forall>i\<in>set ext. type i = Study \<longrightarrow> toISODate (run_currentDate rs) \<le> date i"
      unfolding P_def by blast
    let ?new = "studyItem cur s (chunkOf mx a m s) # revisionItems cur s"
    have "sch @ ?new = run_schedule rs @ (ext @ ?new)" using ext(1) by simp
    moreover have "\<forall>i\<in>set (ext @ ?new). type i = Study \<longrightarrow> toISODate (run_currentDate rs) \<le> date i"
      using ext(2) p by (auto simp: P_def dest: revisionItems_item)
    ultimately show "P cur (a + chunkOf mx a m s) (sch @ ?new)
        (m(id_subj s \<mapsto> remainingOf m (id_subj s) - chunkOf mx a m s))"
      using p unfolding P_def by blast
  next
    fix cur a sch m
    assume "P cur a sch m"
    then show "P (addDays cur 1) 0 sch m" by (auto simp: P_def)
  qed
  then show ?thesis by (simp add: P_def)
qed

subsection \<open>Eligibility\<close>

lemma diffDaysOf_past:
  assumes "examDate s < startDate" and "0 \<le> d"
  shows "diffDaysOf s (addDays startDate d) = 1"
proof -
  have "0 \<le> d * msPerDay" using assms(2) by (simp add: msPerDay_def)
  then have "examDate s - addDays startDate d \<le> 0"
    using assms(1) by (simp add: addDays_def)
  then have "(of_int (examDate s - addDays startDate d) :: rat) / of_int msPerDay \<le> 0"
    by (simp add: msPerDay_def divide_nonpos_pos)
  then have "\<lceil>(of_int (examDate s - addDays startDate d) :: rat) / of_int msPerDay\<rceil> \<le> 0"
    by (simp only: ceiling_le_zero)
  then show ?thesis by (simp add: diffDaysOf_def)
qed

lemma set_heap_insert: "set (heap_insert p v h) = insert (p, v) (set h)"
  using arg_cong [OF mset_heap_insert, of set_mset p v h] by simp

lemma buildQueue_member_aux:
  "s \<in> set subjects \<Longrightarrow> 0 < remainingOf m (id_subj s)
     \<Longrightarrow> (divide_number (diffDaysOf s cur) (difficulty s), s)
           \<in> set (fold (enqueue cur m) subjects h)"
proof (induction subjects arbitrary: h)
  case Nil
  then show ?case by simp
next
  case (Cons x subjects)
  have keep: "set h' \<subseteq> set (fold (enqueue cur m) subjects h')" for h'
  proof (induction subjects arbitrary: h')
    case Nil
    show ?case by simp
  next
    case (Cons y ys)
    have "set h' \<subseteq> set (enqueue cur m y h')"
      by (auto simp: enqueue_def set_heap_insert)
    with Cons [of "enqueue cur m y h'"] show ?case by auto
  qed
  show ?case
  proof (cases "x = s")
    case True
    then have "(divide_number (diffDaysOf s cur) (difficulty s), s) \<in> set (enqueue cur m x h)"
      using Cons.prems(2) diffDaysOf_pos [of s cur] by (simp add: enqueue_def set_heap_insert)
    with keep [of "enqueue cur m x h"] show ?thesis by auto
  next
    case False
    with Cons.prems have "s \<in> set subjects" by simp
    from Cons.IH [OF this Cons.prems(2), of "enqueue cur m x h"] show ?thesis by simp
  qed
qed

lemma buildQueue_member:
  "s \<in> set subjects \<Longrightarrow> 0 < remainingOf m (id_subj s)
     \<Longrightarrow> (divide_number (diffDaysOf s cur) (difficulty s), s) \<in> set (buildQueue cur m subjects)"
  unfolding buildQueue_def by (rule buildQueue_member_aux)

lemma whileLoop_exit:
  "isEmpty (pq (whileLoop cur mx st)) \<or> \<not> hoursAllocatedToday (whileLoop cur mx st) < mx"
proof (induction cur mx st rule: whileLoop.induct)
  case (1 cur mx st)
  show ?case
  proof (cases "\<not> isEmpty (pq st) \<and> hoursAllocatedToday st < mx")
    case True
    with 1 show ?thesis by (subst (1 2) whileLoop.simps) simp
  next
    case False
    then show ?thesis by (subst (1 2) whileLoop.simps) auto
  qed
qed

text \<open>
  A queued subject gets a chunk on the day, unless the capacity of the day is used up.
\<close>

lemma dayBody_served:
  assumes dist: "distinct (map id_subj srt)" and s: "s \<in> set srt" and mx: "0 < mx"
    and rem: "0 < remainingOf (run_remainingHoursMap rs) (id_subj s)"
    and old: "\<forall>i\<in>set (run_schedule rs). type i = Study \<longrightarrow> date i < toISODate (run_currentDate rs)"
  shows "(\<exists>i\<in>set (run_schedule (dayBody srt mx rs)).
            type i = Study \<and> subjectId i = id_subj s \<and> date i = toISODate (run_currentDate rs))
         \<or> studyHoursOn (toISODate (run_currentDate rs)) (run_schedule (dayBody srt mx rs)) = mx"
proof -
  define cur where "cur = run_currentDate rs"
  define served where "served sch \<longleftrightarrow>
      (\<exists>i\<in>set sch. type i = Study \<and> subjectId i = id_subj s \<and> date i = toISODate cur)"
    for sch :: "ScheduleItem list"
  define I where "I st \<longleftrightarrow> snd ` set (pq st) \<subseteq> set srt
      \<and> hoursAllocatedToday st \<le> mx
      \<and> studyHoursOn (toISODate cur) (schedule st) = hoursAllocatedToday st
      \<and> ((s \<in> snd ` set (pq st) \<and> 0 < remainingOf (remainingHoursMap st) (id_subj s))
           \<or> served (schedule st))"
    for st :: AllocState
  define st0 where "st0 = \<lparr>pq = buildQueue cur (run_remainingHoursMap rs) srt,
      hoursAllocatedToday = 0, schedule = run_schedule rs,
      remainingHoursMap = run_remainingHoursMap rs\<rparr>"
  have "studyHoursOn (toISODate cur) (run_schedule rs) = 0"
    using old by (intro studyHoursOn_none) (auto simp: cur_def)
  moreover have "s \<in> snd ` set (buildQueue cur (run_remainingHoursMap rs) srt)"
    using buildQueue_member [OF s rem, of cur] by force
  ultimately have "I st0"
    using mx rem set_buildQueue [of cur "run_remainingHoursMap rs" srt]
    by (simp add: I_def st0_def)
  moreover have "I (whileBody cur mx st)"
    if i: "I st" and ne: "\<not> isEmpty (pq st)" and lt: "hoursAllocatedToday st < mx" for st :: AllocState
  proof -
    from whileBody_nonempty [OF ne] obtain p x h where
      w: "whileBody cur mx st = allocate cur mx x (st\<lparr>pq := h\<rparr>)"
      and m: "mset (pq st) = add_mset (p, x) (mset h)" by blast
    from m have sp: "set (pq st) = insert (p, x) (set h)"
      by (metis set_mset_add_mset_insert set_mset_mset)
    with i have x: "x \<in> set srt" and h: "snd ` set h \<subseteq> set srt"
      by (auto simp: I_def)
    let ?c = "chunkOf mx (hoursAllocatedToday st) (remainingHoursMap st) x"
    let ?st' = "allocate cur mx x (st\<lparr>pq := h\<rparr>)"
    have a: "hoursAllocatedToday ?st' \<le> mx"
      using i lt chunkOf_bounds(3) [of mx "hoursAllocatedToday st" "remainingHoursMap st" x]
      by (simp add: allocate_eq I_def)
    have b: "studyHoursOn (toISODate cur) (schedule ?st') = hoursAllocatedToday ?st'"
      using i by (simp add: allocate_eq I_def)
    have c: "(s \<in> snd ` set h \<and> 0 < remainingOf (remainingHoursMap ?st') (id_subj s))
        \<or> served (schedule ?st')"
    proof (cases "served (schedule st)")
      case True
      then show ?thesis by (auto simp: allocate_eq served_def)
    next
      case False
      with i have q: "s \<in> snd ` set (pq st)" "0 < remainingOf (remainingHoursMap st) (id_subj s)"
        by (auto simp: I_def)
      show ?thesis
      proof (cases "x = s")
        case True
        with q(2) lt have "0 < ?c" by (simp add: chunkOf_def)
        with True have "served (schedule ?st')"
          by (auto simp: allocate_eq served_def)
        then show ?thesis ..
      next
        case False
        with q(1) sp have "s \<in> snd ` set h" by force
        moreover have "id_subj x \<noteq> id_subj s"
          using dist x s False by (auto simp: distinct_map dest: inj_onD)
        then have "remainingOf (remainingHoursMap ?st') (id_subj s)
            = remainingOf (remainingHoursMap st) (id_subj s)"
          by (simp add: allocate_eq)
        ultimately show ?thesis using q(2) by simp
      qed
    qed
    from a b c h show ?thesis by (simp add: w I_def)
  qed
  ultimately have fin: "I (whileLoop cur mx st0)"
    by (rule whileLoop_invariant)
  have "served (schedule (whileLoop cur mx st0))
      \<or> studyHoursOn (toISODate cur) (schedule (whileLoop cur mx st0)) = mx"
  proof (cases "served (schedule (whileLoop cur mx st0))")
    case True
    then show ?thesis ..
  next
    case False
    with fin have "s \<in> snd ` set (pq (whileLoop cur mx st0))" by (auto simp: I_def)
    then have "\<not> isEmpty (pq (whileLoop cur mx st0))" by (auto simp: isEmpty_def)
    with whileLoop_exit [of cur mx st0] have "\<not> hoursAllocatedToday (whileLoop cur mx st0) < mx"
      by blast
    with fin show ?thesis by (auto simp: I_def)
  qed
  then show ?thesis
    by (simp add: dayBody_def Let_def st0_def cur_def served_def)
qed

lemma day_served:
  assumes dist: "distinct (map id_subj subjects)" and s: "s \<in> set subjects" and mx: "0 < mx"
    and n: "n < totalDaysToPlan"
    and rem: "0 < remainingOf (run_remainingHoursMap (stateAt n subjects startDate mx)) (id_subj s)"
  shows "(\<exists>i\<in>set (generateSchedule subjects startDate mx).
            type i = Study \<and> subjectId i = id_subj s \<and> date i = toISODate startDate + int n)
         \<or> studyHoursOn (toISODate startDate + int n) (generateSchedule subjects startDate mx) = mx"
proof -
  let ?srt = "mergeSortSubjects subjects"
  let ?init = "\<lparr>run_currentDate = startDate, run_schedule = [],
      run_remainingHoursMap = initRemaining ?srt\<rparr>"
  let ?rs = "stateAt n subjects startDate mx"
  let ?D = "toISODate startDate + int n"
  have D: "toISODate (run_currentDate ?rs) = ?D"
    using run_currentDate_runDays [of n ?srt mx ?init] by (simp add: stateAt_def)
  have old: "\<forall>i\<in>set (run_schedule ?rs). type i = Study \<longrightarrow> date i < toISODate (run_currentDate ?rs)"
    unfolding stateAt_def by (rule study_dates_before_today) simp
  have day: "(\<exists>i\<in>set (run_schedule (dayBody ?srt mx ?rs)).
            type i = Study \<and> subjectId i = id_subj s \<and> date i = ?D)
         \<or> studyHoursOn ?D (run_schedule (dayBody ?srt mx ?rs)) = mx"
    using dayBody_served [of ?srt s mx ?rs] dist s mx rem old
    by (simp add: D distinct_ids_mergeSortSubjects)
  obtain e where e: "totalDaysToPlan = Suc n + e"
    using n by (metis Suc_leI le_Suc_ex)
  have fin: "stateAt totalDaysToPlan subjects startDate mx = runDays e ?srt mx (dayBody ?srt mx ?rs)"
    unfolding stateAt_def e runDays_add runDays_Suc ..
  from schedule_extends [of e ?srt mx "dayBody ?srt mx ?rs"] obtain ext where
    ext: "run_schedule (runDays e ?srt mx (dayBody ?srt mx ?rs)) = run_schedule (dayBody ?srt mx ?rs) @ ext"
    "\<forall>i\<in>set ext. type i = Study \<longrightarrow> toISODate (run_currentDate (dayBody ?srt mx ?rs)) \<le> date i"
    by blast
  have "studyHoursOn ?D ext = 0"
    using ext(2) D by (intro studyHoursOn_none) auto
  with day ext(1) show ?thesis
    unfolding generateSchedule_stateAt fin by auto
qed

section \<open>The claims\<close>

subsection \<open>C1: the daily capacity\<close>



subsection \<open>C2: a subject's study hours never exceed its estimated hours\<close>




subsection \<open>C3: the order produced by mergeSortSubjects\<close>

text \<open>
  C3 (as amended). For every list of subjects, \<open>mergeSortSubjects\<close> returns a
  permutation of its input in which every subject is followed only by subjects with
  a later exam date, or with the same exam date and a difficulty that is not higher.
  Nothing is promised about subjects that agree on both keys.
\<close>

theorem mergeSortSubjects_sorted_permutation:
  "mset (mergeSortSubjects subjects) = mset subjects
   \<and> sorted_wrt orderedBefore (mergeSortSubjects subjects)"
  by (simp add: mset_mergeSortSubjects sorted_mergeSortSubjects)

text \<open>The theorem at a concrete input.\<close>

theorem mergeSortSubjects_sorted_permutation_witness:
  "mset (mergeSortSubjects [tieFirst, tieSecond]) = mset [tieFirst, tieSecond]
   \<and> sorted_wrt orderedBefore (mergeSortSubjects [tieFirst, tieSecond])"
  using mergeSortSubjects_sorted_permutation [of "[tieFirst, tieSecond]"] by simp

text \<open>
  C3 as stated also claims stability. It fails on two subjects that agree on exam date
  and difficulty: \<open>merge\<close> takes from the left run only when the left head is
  strictly before the right head, so on a tie the right run goes first and the two
  subjects come out in reversed order.
\<close>

theorem mergeSortSubjects_not_stable:
  "examDate tieFirst = examDate tieSecond \<and> difficulty tieFirst = difficulty tieSecond
   \<and> mergeSortSubjects [tieFirst, tieSecond] = [tieSecond, tieFirst]
   \<and> tieFirst \<noteq> tieSecond"
  by (simp add: tieFirst_def tieSecond_def)

subsection \<open>C4: the revision sessions of a study chunk\<close>



subsection \<open>C5: two subjects that differ in difficulty only\<close>

text \<open>
  C5 (as amended). For an input of exactly two subjects (in either order, with
  distinct ids) with the same exam date and the same non-negative estimated hours,
  one of difficulty 5 and one of difficulty 1: whenever the schedule holds a study
  item of the difficulty-1 subject, then earlier in the schedule there is a study
  item of the difficulty-5 subject with the same date, unless the study hours of the
  difficulty-5 subject emitted so far have already reached its estimated hours.
\<close>

theorem harder_subject_first:
  assumes "examDate hard = examDate easy" and "estimatedHours hard = estimatedHours easy"
    and "difficulty hard = 5" and "difficulty easy = 1"
    and "id_subj hard \<noteq> id_subj easy" and "0 \<le> estimatedHours hard"
    and "subjects = [hard, easy] \<or> subjects = [easy, hard]"
    and "i < length (generateSchedule subjects startDate maxDailyHours)"
    and "type (generateSchedule subjects startDate maxDailyHours ! i) = Study"
    and "subjectId (generateSchedule subjects startDate maxDailyHours ! i) = id_subj easy"
  shows "(\<exists>y\<in>set (take i (generateSchedule subjects startDate maxDailyHours)).
            type y = Study \<and> subjectId y = id_subj hard
            \<and> date y = date (generateSchedule subjects startDate maxDailyHours ! i))
         \<or> studyHoursFor (id_subj hard) (take i (generateSchedule subjects startDate maxDailyHours))
             = estimatedHours hard"
proof -
  have "harderFirst (id_subj hard) (id_subj easy) (estimatedHours hard) []
      (generateSchedule subjects startDate maxDailyHours)"
    using assms(1,3,4,5,6,7) by (rule schedule_harderFirst)
  from harderFirst_nth [OF this assms(8,9,10)] show ?thesis
    by (simp add: afterHarder_def)
qed

text \<open>The theorem at a concrete input.\<close>

theorem harder_subject_first_witness:
  "examDate hard5 = examDate easy1 \<and> estimatedHours hard5 = estimatedHours easy1
   \<and> difficulty hard5 = 5 \<and> difficulty easy1 = 1
   \<and> id_subj hard5 \<noteq> id_subj easy1 \<and> 0 \<le> estimatedHours hard5
   \<and> 4 < length (generateSchedule [easy1, hard5] 1730419200000 6)
   \<and> type (generateSchedule [easy1, hard5] 1730419200000 6 ! 4) = Study
   \<and> subjectId (generateSchedule [easy1, hard5] 1730419200000 6 ! 4) = id_subj easy1
   \<and> ((\<exists>y\<in>set (take 4 (generateSchedule [easy1, hard5] 1730419200000 6)).
            type y = Study \<and> subjectId y = id_subj hard5
            \<and> date y = date (generateSchedule [easy1, hard5] 1730419200000 6 ! 4))
       \<or> studyHoursFor (id_subj hard5) (take 4 (generateSchedule [easy1, hard5] 1730419200000 6))
             = estimatedHours hard5)"
proof -
  have k: "examDate hard5 = examDate easy1" "estimatedHours hard5 = estimatedHours easy1"
    "difficulty hard5 = 5" "difficulty easy1 = 1"
    "id_subj hard5 \<noteq> id_subj easy1" "0 \<le> estimatedHours hard5"
    by (simp_all add: hard5_def easy1_def)
  have s: "[easy1, hard5] = [hard5, easy1] \<or> [easy1, hard5] = [easy1, hard5]"
    by simp
  have i: "4 < length (generateSchedule [easy1, hard5] 1730419200000 6)"
    "type (generateSchedule [easy1, hard5] 1730419200000 6 ! 4) = Study"
    "subjectId (generateSchedule [easy1, hard5] 1730419200000 6 ! 4) = id_subj easy1"
    by code_simp+
  show ?thesis
    using k i harder_subject_first [OF k s i] by blast
qed

text \<open>
  C5 as stated lets the difficulty-1 subject receive a chunk only once the remaining
  hours of the difficulty-5 subject or the capacity of the day are exhausted. Each
  subject is extracted once a day and gets one chunk of at most 2 hours. With 4
  estimated hours each and a capacity of 6, the fifth item of the schedule is a
  study chunk of the difficulty-1 subject on the first day, when the difficulty-5
  subject has received 2 of its 4 hours and the day holds 2 of its 6 hours.
\<close>

theorem easier_subject_before_exhaustion:
  "type (generateSchedule [hard5, easy1] 1730419200000 6 ! 4) = Study
   \<and> subjectId (generateSchedule [hard5, easy1] 1730419200000 6 ! 4) = id_subj easy1
   \<and> date (generateSchedule [hard5, easy1] 1730419200000 6 ! 4) = 20028
   \<and> studyHoursFor (id_subj hard5) (take 4 (generateSchedule [hard5, easy1] 1730419200000 6)) = 2
   \<and> estimatedHours hard5 = 4
   \<and> studyHoursOn 20028 (take 4 (generateSchedule [hard5, easy1] 1730419200000 6)) = 2"
  by code_simp

subsection \<open>C6: subjects whose exam has passed\<close>

text \<open>
  C6 (as amended). For every subject \<open>s\<close> of the input whose exam date is before the
  start date: on every day from the start date on, \<open>diffDays\<close> is 1; on every such
  day on which the remaining hours of \<open>s\<close> are positive, \<open>s\<close> is in the queue of the
  day with priority \<open>1 / difficulty s\<close>; and, when the ids are pairwise distinct
  and \<open>maxDailyHours\<close> is positive, on every day of the horizon at whose start the
  remaining hours of \<open>s\<close> are positive, the schedule holds a study item for \<open>s\<close>
  with the date of that day, unless the study hours of that day reach
  \<open>maxDailyHours\<close> (the capacity has gone to subjects extracted before \<open>s\<close>).
\<close>

theorem past_exam_subject_eligible:
  assumes "s \<in> set subjects" and "examDate s < startDate"
  shows "(\<forall>d\<ge>0. diffDaysOf s (addDays startDate d) = 1)
     \<and> (\<forall>d\<ge>0. \<forall>m. 0 < remainingOf m (id_subj s) \<longrightarrow>
           (divide_number 1 (difficulty s), s)
             \<in> set (buildQueue (addDays startDate d) m (mergeSortSubjects subjects)))
     \<and> (distinct (map id_subj subjects) \<and> 0 < maxDailyHours \<longrightarrow>
          (\<forall>n<totalDaysToPlan.
             0 < remainingOf (run_remainingHoursMap (stateAt n subjects startDate maxDailyHours)) (id_subj s)
             \<longrightarrow> (\<exists>i\<in>set (generateSchedule subjects startDate maxDailyHours).
                     type i = Study \<and> subjectId i = id_subj s
                     \<and> date i = toISODate startDate + int n)
                 \<or> studyHoursOn (toISODate startDate + int n)
                      (generateSchedule subjects startDate maxDailyHours) = maxDailyHours))"
proof -
  have a: "\<forall>d\<ge>0. diffDaysOf s (addDays startDate d) = 1"
    using assms(2) by (simp add: diffDaysOf_past)
  have b: "(divide_number 1 (difficulty s), s)
      \<in> set (buildQueue (addDays startDate d) m (mergeSortSubjects subjects))"
    if "0 \<le> d" "0 < remainingOf m (id_subj s)" for d m
    using buildQueue_member [of s "mergeSortSubjects subjects" m "addDays startDate d"]
      assms(1) that a by simp
  have c: "(\<exists>i\<in>set (generateSchedule subjects startDate maxDailyHours).
               type i = Study \<and> subjectId i = id_subj s \<and> date i = toISODate startDate + int n)
           \<or> studyHoursOn (toISODate startDate + int n)
                (generateSchedule subjects startDate maxDailyHours) = maxDailyHours"
    if "distinct (map id_subj subjects)" "0 < maxDailyHours" "n < totalDaysToPlan"
      "0 < remainingOf (run_remainingHoursMap (stateAt n subjects startDate maxDailyHours)) (id_subj s)"
    for n
    using that(1) assms(1) that(2,3,4) by (rule day_served)
  from a b c show ?thesis by blast
qed

text \<open>The theorem at a concrete input.\<close>

theorem past_exam_subject_eligible_witness:
  "starvedPast \<in> set [urgentPast, starvedPast] \<and> examDate starvedPast < 1730419200000
   \<and> diffDaysOf starvedPast (addDays 1730419200000 3) = 1
   \<and> 0 < remainingOf [2 \<mapsto> 5] (id_subj starvedPast)
   \<and> (divide_number 1 (difficulty starvedPast), starvedPast)
        \<in> set (buildQueue (addDays 1730419200000 3) [2 \<mapsto> 5]
                 (mergeSortSubjects [urgentPast, starvedPast]))
   \<and> distinct (map id_subj [urgentPast, starvedPast]) \<and> (0::rat) < 2 \<and> 3 < totalDaysToPlan
   \<and> 0 < remainingOf (run_remainingHoursMap (stateAt 3 [urgentPast, starvedPast] 1730419200000 2))
           (id_subj starvedPast)
   \<and> ((\<exists>i\<in>set (generateSchedule [urgentPast, starvedPast] 1730419200000 2).
           type i = Study \<and> subjectId i = id_subj starvedPast
           \<and> date i = toISODate 1730419200000 + int 3)
       \<or> studyHoursOn (toISODate 1730419200000 + int 3)
            (generateSchedule [urgentPast, starvedPast] 1730419200000 2) = 2)"
proof -
  have h: "starvedPast \<in> set [urgentPast, starvedPast]" "examDate starvedPast < 1730419200000"
    by (simp_all add: starvedPast_def)
  have r: "0 < remainingOf [2 \<mapsto> 5] (id_subj starvedPast)"
    by (simp add: starvedPast_def)
  have d: "distinct (map id_subj [urgentPast, starvedPast])" "(0::rat) < 2" "3 < totalDaysToPlan"
    by (simp_all add: urgentPast_def starvedPast_def totalDaysToPlan_def)
  have q: "0 < remainingOf (run_remainingHoursMap (stateAt 3 [urgentPast, starvedPast] 1730419200000 2))
           (id_subj starvedPast)"
    by code_simp
  note T = past_exam_subject_eligible [OF h, of 2]
  from T have a: "diffDaysOf starvedPast (addDays 1730419200000 3) = 1" by simp
  from T r have b: "(divide_number 1 (difficulty starvedPast), starvedPast)
        \<in> set (buildQueue (addDays 1730419200000 3) [2 \<mapsto> 5]
                 (mergeSortSubjects [urgentPast, starvedPast]))"
    by (metis zero_le_numeral)
  from T d q have c: "(\<exists>i\<in>set (generateSchedule [urgentPast, starvedPast] 1730419200000 2).
           type i = Study \<and> subjectId i = id_subj starvedPast
           \<and> date i = toISODate 1730419200000 + int 3)
       \<or> studyHoursOn (toISODate 1730419200000 + int 3)
            (generateSchedule [urgentPast, starvedPast] 1730419200000 2) = 2"
    by blast
  from h r d q a b c show ?thesis by blast
qed

text \<open>
  C6 as stated has every such subject keep receiving study chunks. Two subjects
  whose exams have passed, a capacity of 2 hours: the subject of difficulty 5 has
  priority 1/5, is extracted first every day and takes the 2 hours; the subject of
  difficulty 1, with 5 hours remaining throughout, appears nowhere in the schedule.
\<close>

theorem past_exam_subject_starved:
  "examDate starvedPast < 1730419200000 \<and> 0 < estimatedHours starvedPast
   \<and> id_subj starvedPast \<notin> set (map subjectId (generateSchedule [urgentPast, starvedPast] 1730419200000 2))
   \<and> remainingOf (remainingAfter [urgentPast, starvedPast] 1730419200000 2) (id_subj starvedPast)
       = estimatedHours starvedPast"
  by code_simp

subsection \<open>C7: entries with the same id\<close>




subsection \<open>C8: the hours of an item\<close>

text \<open>
  C8 (as amended). For every input, every item of the schedule has positive hours,
  every study item has at most 2 hours and every revision item has exactly 1/2 hour.
  If \<open>maxDailyHours\<close> and the \<open>estimatedHours\<close> of every subject are whole or half
  units, then the hours of every item are a whole or half unit.
\<close>

theorem item_hours:
  "(\<forall>i\<in>set (generateSchedule subjects startDate maxDailyHours).
      0 < hours i \<and> (type i = Study \<longrightarrow> hours i \<le> 2) \<and> (type i = Revision \<longrightarrow> hours i = 1 / 2))
   \<and> (isHalfUnit maxDailyHours \<and> (\<forall>s\<in>set subjects. isHalfUnit (estimatedHours s))
        \<longrightarrow> (\<forall>i\<in>set (generateSchedule subjects startDate maxDailyHours). isHalfUnit (hours i)))"
  using items_hours [of subjects startDate maxDailyHours]
    half_units [of maxDailyHours subjects startDate]
  by (simp add: isHalfUnit_iff)

text \<open>The theorem at a concrete input.\<close>

theorem item_hours_witness:
  "isHalfUnit 6 \<and> isHalfUnit (estimatedHours tieFirst) \<and> isHalfUnit (estimatedHours tieSecond)
   \<and> generateSchedule [tieFirst, tieSecond] 1730419200000 6 ! 0
        \<in> set (generateSchedule [tieFirst, tieSecond] 1730419200000 6)
   \<and> type (generateSchedule [tieFirst, tieSecond] 1730419200000 6 ! 0) = Study
   \<and> 0 < hours (generateSchedule [tieFirst, tieSecond] 1730419200000 6 ! 0)
   \<and> hours (generateSchedule [tieFirst, tieSecond] 1730419200000 6 ! 0) \<le> 2
   \<and> isHalfUnit (hours (generateSchedule [tieFirst, tieSecond] 1730419200000 6 ! 0))
   \<and> generateSchedule [tieFirst, tieSecond] 1730419200000 6 ! 1
        \<in> set (generateSchedule [tieFirst, tieSecond] 1730419200000 6)
   \<and> type (generateSchedule [tieFirst, tieSecond] 1730419200000 6 ! 1) = Revision
   \<and> hours (generateSchedule [tieFirst, tieSecond] 1730419200000 6 ! 1) = 1 / 2"
proof -
  have h: "isHalfUnit 6" "isHalfUnit (estimatedHours tieFirst)" "isHalfUnit (estimatedHours tieSecond)"
    by (simp_all add: isHalfUnit_def tieFirst_def tieSecond_def)
  then have h': "isHalfUnit 6 \<and> (\<forall>s\<in>set [tieFirst, tieSecond]. isHalfUnit (estimatedHours s))"
    by simp
  have m: "generateSchedule [tieFirst, tieSecond] 1730419200000 6 ! 0
        \<in> set (generateSchedule [tieFirst, tieSecond] 1730419200000 6)"
    "generateSchedule [tieFirst, tieSecond] 1730419200000 6 ! 1
        \<in> set (generateSchedule [tieFirst, tieSecond] 1730419200000 6)"
    by code_simp+
  have t: "type (generateSchedule [tieFirst, tieSecond] 1730419200000 6 ! 0) = Study"
    "type (generateSchedule [tieFirst, tieSecond] 1730419200000 6 ! 1) = Revision"
    by code_simp+
  show ?thesis
    using h h' m t item_hours [of "[tieFirst, tieSecond]" 1730419200000 6] by blast
qed

text \<open>
  C8 as stated makes every study chunk a whole or half unit under the documented
  preconditions alone. A subject with 1.25 estimated hours, difficulty 3 and a daily
  capacity of 6 gets one study chunk of 1.25 hours.
\<close>

theorem study_chunk_not_half_unit:
  "0 \<le> estimatedHours oddHours \<and> 1 \<le> difficulty oddHours \<and> difficulty oddHours \<le> 5
   \<and> type (hd (generateSchedule [oddHours] 1730419200000 6)) = Study
   \<and> hours (hd (generateSchedule [oddHours] 1730419200000 6)) = 5 / 4
   \<and> \<not> isHalfUnit (hours (hd (generateSchedule [oddHours] 1730419200000 6)))"
  by code_simp

subsection \<open>C9: the empty subject list\<close>


subsection \<open>C10: subjects with no estimated hours\<close>

text \<open>
  C10 (as amended). For every input and every subject \<open>s\<close> in it with
  \<open>estimatedHours s = 0\<close>, provided that every entry with the id of \<open>s\<close> has
  \<open>estimatedHours = 0\<close> (in particular when the ids are pairwise distinct), the
  schedule has no item, study or revision, under the id of \<open>s\<close>.
\<close>

theorem zero_hours_no_items:
  assumes "s \<in> set subjects"
    and "\<forall>x\<in>set subjects. id_subj x = id_subj s \<longrightarrow> estimatedHours x = 0"
  shows "\<forall>i\<in>set (generateSchedule subjects startDate maxDailyHours). subjectId i \<noteq> id_subj s"
proof (rule no_items_for_zero)
  let ?f = "filter (\<lambda>x. id_subj x = id_subj s) (mergeSortSubjects subjects)"
  have "s \<in> set ?f" using assms(1) by simp
  then have ne: "?f \<noteq> []" by (metis empty_iff empty_set)
  then have "last ?f \<in> set ?f" by (rule last_in_set)
  then have "estimatedHours (last ?f) = 0" using assms(2) by simp
  with ne show "remainingOf (initRemaining (mergeSortSubjects subjects)) (id_subj s) = 0"
    by (simp add: remainingOf_initRemaining)
qed

text \<open>The theorem at a concrete input.\<close>

theorem zero_hours_no_items_witness:
  "zeroHours \<in> set [zeroHours, tieSecond]
   \<and> estimatedHours zeroHours = 0 \<and> id_subj tieSecond \<noteq> id_subj zeroHours
   \<and> generateSchedule [zeroHours, tieSecond] 1730419200000 6 ! 0
        \<in> set (generateSchedule [zeroHours, tieSecond] 1730419200000 6)
   \<and> subjectId (generateSchedule [zeroHours, tieSecond] 1730419200000 6 ! 0) \<noteq> id_subj zeroHours"
proof -
  have h: "zeroHours \<in> set [zeroHours, tieSecond]"
    "estimatedHours zeroHours = 0" "id_subj tieSecond \<noteq> id_subj zeroHours"
    by (simp_all add: zeroHours_def tieSecond_def)
  then have h': "\<forall>x\<in>set [zeroHours, tieSecond]. id_subj x = id_subj zeroHours \<longrightarrow> estimatedHours x = 0"
    by simp
  have m: "generateSchedule [zeroHours, tieSecond] 1730419200000 6 ! 0
        \<in> set (generateSchedule [zeroHours, tieSecond] 1730419200000 6)"
    by code_simp
  show ?thesis
    using h m zero_hours_no_items [OF h(1) h', of 1730419200000 6] by blast
qed

text \<open>
  C10 as stated covers every subject with no estimated hours. When such a subject
  shares its id with a subject that has hours left, it is queued with that
  subject's remaining hours: here the first item is a 2-hour study chunk for the
  subject with \<open>estimatedHours = 0\<close>.
\<close>

theorem zero_hours_shared_id_scheduled:
  "estimatedHours zeroHours = 0
   \<and> type (hd (generateSchedule [zeroHours, dupLong] 1730419200000 6)) = Study
   \<and> subjectId (hd (generateSchedule [zeroHours, dupLong] 1730419200000 6)) = id_subj zeroHours
   \<and> subjectName (hd (generateSchedule [zeroHours, dupLong] 1730419200000 6)) = name zeroHours
   \<and> hours (hd (generateSchedule [zeroHours, dupLong] 1730419200000 6)) = 2"
  by code_simp

end
